theory Spec2Isabelle
  imports Main "HOL-Library.Word"
begin

unbundle bit_operations_syntax

section \<open>Station firmware: LED, request server and Wi-Fi manager\<close>

text \<open>
  The station firmware keeps its state in file-level static variables. The model
  gathers the statics of \<^verbatim>\<open>led_control.c\<close>, \<^verbatim>\<open>WEB_Server.c\<close> and \<^verbatim>\<open>WiFi.c\<close> in one
  record and adds \<open>trace\<close>, the calls made so far in program order: calls into the
  platform (ESP-IDF, FreeRTOS) and the entries of the repository's own collaborator
  functions. Log output is left out of the trace, except the one log line that is all
  a second \<^verbatim>\<open>web_server_start\<close> does.
\<close>

text \<open>What \<^verbatim>\<open>httpd_start\<close> answers: \<^verbatim>\<open>ESP_OK\<close> with a (non-NULL) handle, or an error
  code, in which case the handle variable is not written.\<close>

datatype httpd_rc = Httpd_ok nat | Httpd_err int

datatype http_method = HTTP_GET | HTTP_POST | HTTP_DELETE

datatype call =
    Esp_wifi_connect
  | XEventGroupSetBits "32 word"
  | Led_control_set int
  | Gpio_set_level int
  | Web_server_start
  | Httpd_start httpd_rc
  | Httpd_register_uri_handler string http_method
  | Esp_log string

record station =
  s_led_on :: int
  server :: "nat option"
  s_retry_num :: "32 word"
  s_wifi_event_group :: "32 word"
  trace :: "call list"

text \<open>\<open>s_retry_num\<close> is a C \<^verbatim>\<open>int\<close>: a 32-bit word, read as a signed number with
  \<open>sint\<close>. The statics as the C initialisers leave them: LED off,
  \<^verbatim>\<open>server = NULL\<close>, \<^verbatim>\<open>s_retry_num = 0\<close>, no event bit set, nothing called yet.\<close>

definition boot :: station where
  "boot = \<lparr>s_led_on = 0, server = None, s_retry_num = 0, s_wifi_event_group = 0, trace = []\<rparr>"

definition emit :: "call list \<Rightarrow> station \<Rightarrow> station" where
  "emit cs s = s\<lparr>trace := trace s @ cs\<rparr>"

subsection \<open>\<^verbatim>\<open>led_control.c\<close>\<close>

definition led_control_set :: "int \<Rightarrow> station \<Rightarrow> station" where
  "led_control_set on s =
     (let v = (if on \<noteq> 0 then 1 else 0)
      in emit [Led_control_set on, Gpio_set_level v] (s\<lparr>s_led_on := v\<rparr>))"

definition led_control_is_on :: "station \<Rightarrow> int" where
  "led_control_is_on s = s_led_on s"

subsection \<open>\<^verbatim>\<open>WEB_Server.c\<close>\<close>

definition uri_handlers :: "call list" where
  "uri_handlers =
     [Httpd_register_uri_handler ''/'' HTTP_GET,
      Httpd_register_uri_handler ''/led'' HTTP_GET,
      Httpd_register_uri_handler ''/string'' HTTP_GET,
      Httpd_register_uri_handler ''/string'' HTTP_POST,
      Httpd_register_uri_handler ''/string'' HTTP_DELETE]"

text \<open>\<open>h\<close> is what \<^verbatim>\<open>httpd_start\<close> answers if this invocation reaches it.\<close>

definition web_server_start :: "httpd_rc \<Rightarrow> station \<Rightarrow> station" where
  "web_server_start h s0 =
     (let s = emit [Web_server_start] s0 in
      if server s \<noteq> None then emit [Esp_log ''HTTP server already running''] s
      else
        (case h of
           Httpd_err e \<Rightarrow> emit [Httpd_start h] s
         | Httpd_ok handle \<Rightarrow>
             emit (Httpd_start h # uri_handlers) (s\<lparr>server := Some handle\<rparr>)))"

text \<open>Any number of invocations, one after the other, each with the answer
  \<^verbatim>\<open>httpd_start\<close> would give it; and the calls that did start an HTTP server.\<close>

fun web_server_starts :: "httpd_rc list \<Rightarrow> station \<Rightarrow> station" where
  "web_server_starts [] s = s"
| "web_server_starts (h # hs) s = web_server_starts hs (web_server_start h s)"

fun httpd_started :: "call \<Rightarrow> bool" where
  "httpd_started (Httpd_start (Httpd_ok handle)) = True"
| "httpd_started _ = False"

text \<open>The calls of \<^verbatim>\<open>httpd_start\<close>, whatever the answer.\<close>

fun is_httpd_start :: "call \<Rightarrow> bool" where
  "is_httpd_start (Httpd_start r) = True"
| "is_httpd_start _ = False"

subsection \<open>\<^verbatim>\<open>WiFi.c\<close>\<close>

text \<open>The pairs of event base and event id that the handler tells apart; every other
  pair it is registered for falls through all three branches.\<close>

datatype wifi_event =
    WIFI_EVENT_STA_START
  | WIFI_EVENT_STA_DISCONNECTED
  | IP_EVENT_STA_GOT_IP
  | OTHER_EVENT

definition WIFI_CONNECTED_BIT :: "32 word" where
  "WIFI_CONNECTED_BIT = 1"

definition WIFI_FAIL_BIT :: "32 word" where
  "WIFI_FAIL_BIT = 2"

definition xEventGroupSetBits :: "32 word \<Rightarrow> station \<Rightarrow> station" where
  "xEventGroupSetBits b s =
     emit [XEventGroupSetBits b] (s\<lparr>s_wifi_event_group := s_wifi_event_group s OR b\<rparr>)"

text \<open>The largest value of a C \<^verbatim>\<open>int\<close> on the target.\<close>

definition INT_MAX :: int where
  "INT_MAX = 2147483647"

text \<open>\<open>max_retry\<close> stands for \<^verbatim>\<open>ESP_MAXIMUM_RETRY\<close>, which is
  \<^verbatim>\<open>CONFIG_ESP_MAXIMUM_RETRY\<close> of the build configuration: an integer constant. The
  comparison reads the counter as a signed number; \<^verbatim>\<open>s_retry_num++\<close> adds 1 to the
  32-bit word, which wraps from \<open>INT_MAX\<close> to the smallest \<^verbatim>\<open>int\<close>. That can only
  happen with a budget above \<open>INT_MAX\<close>, since the increment is guarded by the
  comparison.\<close>

fun wifi_event_handler :: "int \<Rightarrow> httpd_rc \<Rightarrow> wifi_event \<Rightarrow> station \<Rightarrow> station" where
  "wifi_event_handler max_retry h WIFI_EVENT_STA_START s = emit [Esp_wifi_connect] s"
| "wifi_event_handler max_retry h WIFI_EVENT_STA_DISCONNECTED s =
     (if sint (s_retry_num s) < max_retry
      then (emit [Esp_wifi_connect] s)\<lparr>s_retry_num := s_retry_num s + 1\<rparr>
      else xEventGroupSetBits WIFI_FAIL_BIT s)"
| "wifi_event_handler max_retry h IP_EVENT_STA_GOT_IP s =
     xEventGroupSetBits WIFI_CONNECTED_BIT
       (web_server_start h (led_control_set 1 (s\<lparr>s_retry_num := 0\<rparr>)))"
| "wifi_event_handler max_retry h OTHER_EVENT s = s"

text \<open>The event loop task hands the events to the handler one at a time, in order;
  each event comes with the answer \<^verbatim>\<open>httpd_start\<close> would give during it.\<close>

fun wifi_events :: "int \<Rightarrow> (httpd_rc \<times> wifi_event) list \<Rightarrow> station \<Rightarrow> station" where
  "wifi_events max_retry [] s = s"
| "wifi_events max_retry ((h, e) # es) s =
     wifi_events max_retry es (wifi_event_handler max_retry h e s)"

text \<open>A terminal signal: one of the two bits \<^verbatim>\<open>xEventGroupWaitBits\<close> waits for is
  set.\<close>

definition terminal :: "station \<Rightarrow> bool" where
  "terminal s \<longleftrightarrow> s_wifi_event_group s AND (WIFI_CONNECTED_BIT OR WIFI_FAIL_BIT) \<noteq> 0"

text \<open>
  \<^verbatim>\<open>xEventGroupWaitBits(group, CONNECTED | FAIL, pdFALSE, pdFALSE, portMAX_DELAY)\<close>:
  the caller stays blocked while the event task handles events, and is released with
  the value of the bits as soon as one of the two is set. With no time-out the call
  need not return: \<open>None\<close> says that the events given did not release the caller.
\<close>

fun xEventGroupWaitBits ::
    "int \<Rightarrow> (httpd_rc \<times> wifi_event) list \<Rightarrow> station \<Rightarrow> (32 word \<times> station) option" where
  "xEventGroupWaitBits max_retry [] s =
     (if terminal s then Some (s_wifi_event_group s, s) else None)"
| "xEventGroupWaitBits max_retry ((h, e) # es) s =
     (if terminal s then Some (s_wifi_event_group s, s)
      else xEventGroupWaitBits max_retry es (wifi_event_handler max_retry h e s))"

datatype start_error = Aborted | Blocked

definition ESP_OK :: int where
  "ESP_OK = 0"

text \<open>
  \<open>rcs\<close> are the return codes of the bring-up calls under \<^verbatim>\<open>ESP_ERROR_CHECK\<close>, which
  aborts on the first that is not \<^verbatim>\<open>ESP_OK\<close>. \<^verbatim>\<open>xEventGroupCreate\<close> gives a group
  with no bit set. The C function returns nothing and ends by logging which bit it
  saw; the model returns the bits it was released with and the state at that moment.
\<close>

definition wifi_manager_start ::
    "int \<Rightarrow> int list \<Rightarrow> (httpd_rc \<times> wifi_event) list \<Rightarrow> station
      \<Rightarrow> start_error + (32 word \<times> station)" where
  "wifi_manager_start max_retry rcs es s0 =
     (if list_ex (\<lambda>rc. rc \<noteq> ESP_OK) rcs then Inl Aborted
      else
        (case xEventGroupWaitBits max_retry es (s0\<lparr>s_wifi_event_group := 0\<rparr>) of
           None \<Rightarrow> Inl Blocked
         | Some (bits, s) \<Rightarrow> Inr (bits, s)))"

text \<open>Notions used to state the properties: the calls made between two states, and
  a run of disconnect events with nothing in between.\<close>

definition new_calls :: "station \<Rightarrow> station \<Rightarrow> call list" where
  "new_calls s s' = drop (length (trace s)) (trace s')"

definition consecutive_disconnects :: "httpd_rc list \<Rightarrow> (httpd_rc \<times> wifi_event) list" where
  "consecutive_disconnects hs = map (\<lambda>h. (h, WIFI_EVENT_STA_DISCONNECTED)) hs"

text \<open>What the caller of the wait finds, by the bit that released it: after some
  reconnects, the state the got-IP branch leaves, or the Fail signal.\<close>

definition released_connected :: "int \<Rightarrow> station \<Rightarrow> station \<Rightarrow> bool" where
  "released_connected max_retry s s' \<longleftrightarrow>
     (\<exists>k h q. trace q = trace s @ replicate k Esp_wifi_connect \<and>
              s_led_on q = s_led_on s \<and> server q = server s \<and> s_wifi_event_group q = 0 \<and>
              s' = wifi_event_handler max_retry h IP_EVENT_STA_GOT_IP q)"

definition released_failed :: "station \<Rightarrow> station \<Rightarrow> bool" where
  "released_failed s s' \<longleftrightarrow>
     (\<exists>k. trace s' = trace s @ replicate k Esp_wifi_connect @ [XEventGroupSetBits WIFI_FAIL_BIT]) \<and>
     s_led_on s' = s_led_on s \<and> server s' = server s"

section \<open>BLE: address codec and the two link role controllers\<close>

type_synonym byte = "8 word"

subsection \<open>Address codec (\<^verbatim>\<open>addr_to_string\<close> of both \<^verbatim>\<open>BLE.c\<close> files)\<close>

definition hex_digit :: "nat \<Rightarrow> char" where
  "hex_digit n = ''0123456789ABCDEF'' ! n"

text \<open>\<^verbatim>\<open>%02X\<close> of a \<^verbatim>\<open>uint8_t\<close>: two upper-case hexadecimal digits, high nibble first.\<close>

definition fmt_02X :: "byte \<Rightarrow> string" where
  "fmt_02X b = [hex_digit (unat b div 16), hex_digit (unat b mod 16)]"

text \<open>\<^verbatim>\<open>snprintf(str, str_len, ...)\<close> stores at most \<open>str_len - 1\<close> characters of the
  formatted text (and then the terminator); the model gives the characters stored.\<close>

definition snprintf :: "nat \<Rightarrow> string \<Rightarrow> string" where
  "snprintf str_len out = take (str_len - 1) out"

text \<open>The C functions read \<^verbatim>\<open>addr[0]\<close> to \<^verbatim>\<open>addr[5]\<close>; with fewer than six bytes
  behind the pointer the read is out of bounds, which the model reports as \<open>None\<close>.\<close>

definition peripheral_addr_to_string :: "byte list \<Rightarrow> nat \<Rightarrow> string option" where
  "peripheral_addr_to_string addr str_len =
     (if length addr < 6 then None
      else Some (snprintf str_len
        (fmt_02X (addr ! 5) @ '':'' @ fmt_02X (addr ! 4) @ '':'' @ fmt_02X (addr ! 3) @ '':'' @
         fmt_02X (addr ! 2) @ '':'' @ fmt_02X (addr ! 1) @ '':'' @ fmt_02X (addr ! 0))))"

definition central_addr_to_string :: "byte list \<Rightarrow> nat \<Rightarrow> string option" where
  "central_addr_to_string addr str_len =
     (if length addr < 6 then None
      else Some (snprintf str_len
        (fmt_02X (addr ! 5) @ '':'' @ fmt_02X (addr ! 4) @ '':'' @ fmt_02X (addr ! 3) @ '':'' @
         fmt_02X (addr ! 2) @ '':'' @ fmt_02X (addr ! 1) @ '':'' @ fmt_02X (addr ! 0))))"

text \<open>
  The display form in the specification's words: the bytes most significant first
  (the little-endian identifier reversed), each as two upper-case hexadecimal digits,
  separated by colons.
\<close>

fun colon_separated :: "string list \<Rightarrow> string" where
  "colon_separated [] = []"
| "colon_separated [x] = x"
| "colon_separated (x # y # ys) = x @ '':'' @ colon_separated (y # ys)"

definition upper_hex :: "byte \<Rightarrow> string" where
  "upper_hex b =
     [''0123456789ABCDEF'' ! (unat (drop_bit 4 b)), ''0123456789ABCDEF'' ! (unat (b AND 15))]"

definition display_form :: "byte list \<Rightarrow> string" where
  "display_form addr = colon_separated (map upper_hex (rev addr))"

text \<open>Reading a display form back: the value of a hexadecimal digit, of a pair of
  digits, and of a colon-separated text, returned in device order.\<close>

definition hex_value :: "char \<Rightarrow> nat option" where
  "hex_value c =
     (let n = of_char c :: nat in
      if 48 \<le> n \<and> n \<le> 57 then Some (n - 48)
      else if 65 \<le> n \<and> n \<le> 70 then Some (n - 55)
      else None)"

fun parse_bytes :: "string \<Rightarrow> byte list option" where
  "parse_bytes [a, b] =
     (case (hex_value a, hex_value b) of
        (Some x, Some y) \<Rightarrow> Some [of_nat (16 * x + y)]
      | _ \<Rightarrow> None)"
| "parse_bytes (a # b # c # rest) =
     (if c \<noteq> CHR '':'' then None
      else
        (case (hex_value a, hex_value b, parse_bytes rest) of
           (Some x, Some y, Some bs) \<Rightarrow> Some (of_nat (16 * x + y) # bs)
         | _ \<Rightarrow> None))"
| "parse_bytes _ = None"

definition parse_display_form :: "string \<Rightarrow> byte list option" where
  "parse_display_form str = map_option rev (parse_bytes str)"

subsection \<open>State, events and radio-stack calls shared by both roles\<close>

text \<open>
  Both \<^verbatim>\<open>BLE.c\<close> files keep the same three statics. \<open>calls\<close> is the sequence of calls
  made so far: into the NimBLE host, and the entries of the file's own discovery
  actions. Log output, and the calls made only to format it, are left out.
\<close>

record ble_addr_t =
  addr_type :: byte
  val :: "byte list"

datatype ble_call =
    Start_advertising
  | Ble_gap_adv_set_fields
  | Ble_gap_adv_start byte
  | Ble_gap_conn_find "16 word"
  | Connect_to_device ble_addr_t
  | Ble_gap_disc_cancel
  | Ble_gap_connect byte ble_addr_t
  | Ble_central_start_scan
  | Ble_gap_disc byte

record ble =
  s_conn_handle :: "16 word"
  s_is_connected :: bool
  s_own_addr_type :: byte
  calls :: "ble_call list"

text \<open>The value NimBLE gives the sentinel in \<^verbatim>\<open>host/ble_hs.h\<close>; no property below
  depends on which value it is.\<close>

definition BLE_HS_CONN_HANDLE_NONE :: "16 word" where
  "BLE_HS_CONN_HANDLE_NONE = 0xFFFF"

definition ble_boot :: "byte \<Rightarrow> ble" where
  "ble_boot t =
     \<lparr>s_conn_handle = BLE_HS_CONN_HANDLE_NONE, s_is_connected = False,
      s_own_addr_type = t, calls = []\<rparr>"

definition issue :: "ble_call list \<Rightarrow> ble \<Rightarrow> ble" where
  "issue cs s = s\<lparr>calls := calls s @ cs\<rparr>"

text \<open>The kinds of advertising report (\<^verbatim>\<open>disc->event_type\<close>).\<close>

datatype adv_rpt_evtype =
    BLE_HCI_ADV_RPT_EVTYPE_ADV_IND
  | BLE_HCI_ADV_RPT_EVTYPE_DIR_IND
  | BLE_HCI_ADV_RPT_EVTYPE_SCAN_IND
  | BLE_HCI_ADV_RPT_EVTYPE_NONCONN_IND
  | BLE_HCI_ADV_RPT_EVTYPE_SCAN_RSP

record ble_gap_disc_desc =
  event_type :: adv_rpt_evtype
  addr :: ble_addr_t
  rssi :: int
  data :: "byte list"

text \<open>\<^verbatim>\<open>struct ble_gap_event\<close>: the type tag with the payload the handlers read.
  \<open>BLE_GAP_EVENT_CONNECT status conn_handle\<close>, \<open>BLE_GAP_EVENT_DISCONNECT reason peer\<close>,
  \<open>BLE_GAP_EVENT_DISC_COMPLETE reason\<close>; \<open>BLE_GAP_EVENT_OTHER\<close> is any other type
  code.\<close>

datatype ble_gap_event =
    BLE_GAP_EVENT_CONNECT int "16 word"
  | BLE_GAP_EVENT_DISCONNECT int ble_addr_t
  | BLE_GAP_EVENT_CONN_UPDATE
  | BLE_GAP_EVENT_DISC ble_gap_disc_desc
  | BLE_GAP_EVENT_DISC_COMPLETE int
  | BLE_GAP_EVENT_ADV_COMPLETE
  | BLE_GAP_EVENT_OTHER nat

text \<open>What the NimBLE host answers to the calls a handler can make while it handles
  one event (each is made at most once per event).\<close>

record ble_env =
  adv_set_fields_rc :: int
  adv_start_rc :: int
  disc_cancel_rc :: int
  connect_rc :: int
  disc_rc :: int

subsection \<open>Peripheral role (\<^verbatim>\<open>components/BLE/BLE.c\<close>)\<close>

definition start_advertising :: "ble_env \<Rightarrow> ble \<Rightarrow> int \<times> ble" where
  "start_advertising env s0 =
     (let s1 = issue [Start_advertising, Ble_gap_adv_set_fields] s0 in
      if adv_set_fields_rc env \<noteq> 0 then (adv_set_fields_rc env, s1)
      else
        (let s2 = issue [Ble_gap_adv_start (s_own_addr_type s1)] s1 in
         if adv_start_rc env \<noteq> 0 then (adv_start_rc env, s2) else (0, s2)))"

text \<open>The handler returns 0 on every path; the model returns the state.\<close>

fun ble_peripheral_gap_event :: "ble_env \<Rightarrow> ble_gap_event \<Rightarrow> ble \<Rightarrow> ble" where
  "ble_peripheral_gap_event env (BLE_GAP_EVENT_CONNECT status conn_handle) s =
     (if status = 0
      then issue [Ble_gap_conn_find conn_handle]
             (s\<lparr>s_conn_handle := conn_handle, s_is_connected := True\<rparr>)
      else snd (start_advertising env (s\<lparr>s_is_connected := False\<rparr>)))"
| "ble_peripheral_gap_event env (BLE_GAP_EVENT_DISCONNECT reason peer) s =
     snd (start_advertising env
       (s\<lparr>s_conn_handle := BLE_HS_CONN_HANDLE_NONE, s_is_connected := False\<rparr>))"
| "ble_peripheral_gap_event env BLE_GAP_EVENT_CONN_UPDATE s = s"
| "ble_peripheral_gap_event env BLE_GAP_EVENT_ADV_COMPLETE s =
     (if \<not> s_is_connected s then snd (start_advertising env s) else s)"
| "ble_peripheral_gap_event env _ s = s"

definition ble_peripheral_on_reset :: "int \<Rightarrow> ble \<Rightarrow> ble" where
  "ble_peripheral_on_reset reason s =
     s\<lparr>s_is_connected := False, s_conn_handle := BLE_HS_CONN_HANDLE_NONE\<rparr>"

subsection \<open>Central role (\<^verbatim>\<open>station/components/BLE/BLE.c\<close>)\<close>

definition ble_central_start_scan :: "ble_env \<Rightarrow> ble \<Rightarrow> int \<times> ble" where
  "ble_central_start_scan env s =
     (disc_rc env, issue [Ble_central_start_scan, Ble_gap_disc (s_own_addr_type s)] s)"

text \<open>The return code of \<^verbatim>\<open>ble_gap_disc_cancel\<close> only chooses a log line.\<close>

definition connect_to_device :: "ble_env \<Rightarrow> ble_addr_t \<Rightarrow> ble \<Rightarrow> int \<times> ble" where
  "connect_to_device env a s =
     (connect_rc env,
      issue [Connect_to_device a, Ble_gap_disc_cancel, Ble_gap_connect (s_own_addr_type s) a] s)"

fun ble_central_gap_event :: "ble_env \<Rightarrow> ble_gap_event \<Rightarrow> ble \<Rightarrow> ble" where
  "ble_central_gap_event env (BLE_GAP_EVENT_DISC disc) s =
     (if event_type disc = BLE_HCI_ADV_RPT_EVTYPE_ADV_IND \<or>
         event_type disc = BLE_HCI_ADV_RPT_EVTYPE_DIR_IND
      then (if \<not> s_is_connected s then snd (connect_to_device env (addr disc) s) else s)
      else s)"
| "ble_central_gap_event env (BLE_GAP_EVENT_CONNECT status conn_handle) s =
     (if status = 0
      then issue [Ble_gap_conn_find conn_handle]
             (s\<lparr>s_conn_handle := conn_handle, s_is_connected := True\<rparr>)
      else snd (ble_central_start_scan env (s\<lparr>s_is_connected := False\<rparr>)))"
| "ble_central_gap_event env (BLE_GAP_EVENT_DISCONNECT reason peer) s =
     snd (ble_central_start_scan env
       (s\<lparr>s_conn_handle := BLE_HS_CONN_HANDLE_NONE, s_is_connected := False\<rparr>))"
| "ble_central_gap_event env (BLE_GAP_EVENT_DISC_COMPLETE reason) s =
     (if \<not> s_is_connected s then snd (ble_central_start_scan env s) else s)"
| "ble_central_gap_event env BLE_GAP_EVENT_CONN_UPDATE s = s"
| "ble_central_gap_event env _ s = s"

definition ble_central_on_reset :: "int \<Rightarrow> ble \<Rightarrow> ble" where
  "ble_central_on_reset reason s =
     s\<lparr>s_is_connected := False, s_conn_handle := BLE_HS_CONN_HANDLE_NONE\<rparr>"

subsection \<open>Notions used to state the properties of the two roles\<close>

definition ble_new_calls :: "ble \<Rightarrow> ble \<Rightarrow> ble_call list" where
  "ble_new_calls s s' = drop (length (calls s)) (calls s')"

text \<open>The connected flag is set only with a real handle stored.\<close>

definition handle_inv :: "ble \<Rightarrow> bool" where
  "handle_inv s \<longleftrightarrow> (s_is_connected s \<longrightarrow> s_conn_handle s \<noteq> BLE_HS_CONN_HANDLE_NONE)"

text \<open>A connect event that reports success: the one event on which the handlers set
  the flag. They store the handle it carries without looking at it.\<close>

fun connect_succeeded :: "ble_gap_event \<Rightarrow> bool" where
  "connect_succeeded (BLE_GAP_EVENT_CONNECT status conn_handle) = (status = 0)"
| "connect_succeeded _ = False"

text \<open>A discovery hit whose advertisement accepts connections.\<close>

definition connectable :: "ble_gap_disc_desc \<Rightarrow> bool" where
  "connectable disc \<longleftrightarrow>
     event_type disc = BLE_HCI_ADV_RPT_EVTYPE_ADV_IND \<or>
     event_type disc = BLE_HCI_ADV_RPT_EVTYPE_DIR_IND"

section \<open>Storage manager (\<^verbatim>\<open>Storage_Manager.c\<close>)\<close>

definition NUL :: char where
  "NUL = CHR 0x00"

definition STRING_MAX_LEN :: nat where
  "STRING_MAX_LEN = 64"

text \<open>The text a C reader finds at a \<^verbatim>\<open>char *\<close>: the characters before the first
  terminator.\<close>

definition c_str :: "string \<Rightarrow> string" where
  "c_str bs = takeWhile (\<lambda>c. c \<noteq> NUL) bs"

text \<open>\<^verbatim>\<open>strncpy(dst, src, n)\<close> for \<open>n \<le> length dst\<close>: the first \<open>n\<close> characters of the
  source text, padded with terminators up to \<open>n\<close> when the text is shorter.\<close>

definition strncpy :: "string \<Rightarrow> string \<Rightarrow> nat \<Rightarrow> string" where
  "strncpy dst src n = take n (c_str src @ replicate n NUL) @ drop n dst"

datatype nvs_call = Nvs_open | Nvs_set_str string | Nvs_commit | Nvs_close

record nvs_env =
  open_rc :: int
  set_rc :: int
  commit_rc :: int

record storage =
  s_stored_string :: string
  nvs_calls :: "nvs_call list"

definition storage_boot :: storage where
  "storage_boot = \<lparr>s_stored_string = replicate STRING_MAX_LEN NUL, nvs_calls = []\<rparr>"

definition nvs :: "nvs_call list \<Rightarrow> storage \<Rightarrow> storage" where
  "nvs cs s = s\<lparr>nvs_calls := nvs_calls s @ cs\<rparr>"

text \<open>The function returns the buffer; the model returns the text a caller reads
  there.\<close>

definition storage_manager_get_string :: "storage \<Rightarrow> string" where
  "storage_manager_get_string s = c_str (s_stored_string s)"

definition storage_manager_save_string :: "nvs_env \<Rightarrow> string \<Rightarrow> storage \<Rightarrow> storage" where
  "storage_manager_save_string env v s0 =
     (let s1 = nvs [Nvs_open] s0 in
      if open_rc env \<noteq> ESP_OK then s1
      else
        (let s2 = nvs [Nvs_set_str (c_str v)] s1 in
         if set_rc env \<noteq> ESP_OK then nvs [Nvs_close] s2
         else
           (let s3 = nvs [Nvs_commit] s2;
                s4 = (if commit_rc env \<noteq> ESP_OK then s3
                      else s3\<lparr>s_stored_string :=
                        (strncpy (s_stored_string s3) v (STRING_MAX_LEN - 1))
                          [STRING_MAX_LEN - 1 := NUL]\<rparr>)
            in nvs [Nvs_close] s4)))"

section \<open>Properties of the Wi-Fi retry policy\<close>

lemma s_retry_num_emit: "s_retry_num (emit cs s) = s_retry_num s"
  by (simp add: emit_def)

lemma s_retry_num_led_control_set: "s_retry_num (led_control_set on s) = s_retry_num s"
  by (simp add: led_control_set_def Let_def s_retry_num_emit)

lemma s_retry_num_web_server_start: "s_retry_num (web_server_start h s) = s_retry_num s"
  by (simp add: web_server_start_def Let_def s_retry_num_emit split: httpd_rc.split)

lemma s_retry_num_xEventGroupSetBits: "s_retry_num (xEventGroupSetBits b s) = s_retry_num s"
  by (simp add: xEventGroupSetBits_def s_retry_num_emit)

lemma sint_increment:
  assumes "sint w < m" and "m \<le> INT_MAX"
  shows "sint (w + 1 :: 32 word) = sint w + 1"
proof -
  have lo: "- (2 ^ 31) \<le> sint w" using sint_ge [of w] by simp
  from assms have hi: "sint w + 1 < 2 ^ 31" by (simp add: INT_MAX_def)
  have "sint (w + 1) = signed_take_bit 31 (sint w + sint (1 :: 32 word))"
    by (simp add: sint_word_ariths)
  also have "\<dots> = signed_take_bit 31 (sint w + 1)" by simp
  also have "\<dots> = sint w + 1"
    using lo hi by (intro signed_take_bit_int_eq_self) simp_all
  finally show ?thesis .
qed

lemma disconnect_below:
  "sint (s_retry_num s) < m \<Longrightarrow>
   wifi_event_handler m h WIFI_EVENT_STA_DISCONNECTED s =
     s\<lparr>s_retry_num := s_retry_num s + 1, trace := trace s @ [Esp_wifi_connect]\<rparr>"
  by (simp add: emit_def)

lemma disconnect_spent:
  "\<not> sint (s_retry_num s) < m \<Longrightarrow>
   wifi_event_handler m h WIFI_EVENT_STA_DISCONNECTED s =
     s\<lparr>s_wifi_event_group := s_wifi_event_group s OR WIFI_FAIL_BIT,
       trace := trace s @ [XEventGroupSetBits WIFI_FAIL_BIT]\<rparr>"
  by (simp add: xEventGroupSetBits_def emit_def)

text \<open>With a budget above \<open>INT_MAX\<close> the guard never stops the increment, and the
  counter wraps; the properties below are for budgets a C \<^verbatim>\<open>int\<close> can hold.\<close>

lemma increment_wraps_above_INT_MAX:
  "sint (s_retry_num (wifi_event_handler 2147483648 h WIFI_EVENT_STA_DISCONNECTED
     (boot\<lparr>s_retry_num := 0x7FFFFFFF\<rparr>))) = - 2147483648"
  by (simp add: boot_def emit_def)

lemma disconnects_within_budget:
  "sint (s_retry_num s) + int (length hs) \<le> m \<Longrightarrow> m \<le> INT_MAX \<Longrightarrow>
   sint (s_retry_num (wifi_events m (consecutive_disconnects hs) s))
     = sint (s_retry_num s) + int (length hs) \<and>
   trace (wifi_events m (consecutive_disconnects hs) s)
     = trace s @ replicate (length hs) Esp_wifi_connect \<and>
   s_wifi_event_group (wifi_events m (consecutive_disconnects hs) s) = s_wifi_event_group s"
proof (induction hs arbitrary: s)
  case Nil
  then show ?case by (simp add: consecutive_disconnects_def)
next
  case (Cons h hs)
  let ?s1 = "s\<lparr>s_retry_num := s_retry_num s + 1, trace := trace s @ [Esp_wifi_connect]\<rparr>"
  from Cons.prems have lt: "sint (s_retry_num s) < m" by simp
  from sint_increment [OF lt Cons.prems(2)]
  have inc: "sint (s_retry_num ?s1) = sint (s_retry_num s) + 1" by simp
  with Cons.prems have "sint (s_retry_num ?s1) + int (length hs) \<le> m" by simp
  from Cons.IH [OF this Cons.prems(2)] inc
  have "sint (s_retry_num (wifi_events m (consecutive_disconnects hs) ?s1))
          = sint (s_retry_num s) + int (length (h # hs))"
    and "trace (wifi_events m (consecutive_disconnects hs) ?s1)
          = trace s @ replicate (length (h # hs)) Esp_wifi_connect"
    and "s_wifi_event_group (wifi_events m (consecutive_disconnects hs) ?s1)
          = s_wifi_event_group s"
    by (simp_all add: replicate_append_same)
  moreover have "wifi_events m (consecutive_disconnects (h # hs)) s
      = wifi_events m (consecutive_disconnects hs) ?s1"
    using disconnect_below [OF lt, of h]
    by (simp add: consecutive_disconnects_def del: wifi_event_handler.simps)
  ultimately show ?case by (simp only:)
qed

text \<open>
  C1. The retry budget is within the range of a C \<^verbatim>\<open>int\<close>, as the counter is.
  Start with the retry counter at 0 and let \<open>N\<close> disconnect events arrive with
  nothing in between, \<open>N\<close> at most the retry budget. Then the counter is \<open>N\<close>, the
  calls made are exactly \<open>N\<close> reconnects (one per event, and no Fail signal among
  them), and the event bits are untouched. When \<open>N\<close> is the whole budget, the next
  disconnect event makes exactly one call, the Fail signal, and no reconnect; the
  counter stays at the budget.
\<close>

theorem bounded_retry_run:
  assumes "s_retry_num s0 = 0" and "int (length hs) \<le> max_retry" and "max_retry \<le> INT_MAX"
  shows "sint (s_retry_num (wifi_events max_retry (consecutive_disconnects hs) s0))
           = int (length hs) \<and>
         new_calls s0 (wifi_events max_retry (consecutive_disconnects hs) s0)
           = replicate (length hs) Esp_wifi_connect \<and>
         s_wifi_event_group (wifi_events max_retry (consecutive_disconnects hs) s0)
           = s_wifi_event_group s0 \<and>
         (int (length hs) = max_retry \<longrightarrow>
            new_calls (wifi_events max_retry (consecutive_disconnects hs) s0)
              (wifi_event_handler max_retry h WIFI_EVENT_STA_DISCONNECTED
                (wifi_events max_retry (consecutive_disconnects hs) s0))
              = [XEventGroupSetBits WIFI_FAIL_BIT] \<and>
            sint (s_retry_num (wifi_event_handler max_retry h WIFI_EVENT_STA_DISCONNECTED
              (wifi_events max_retry (consecutive_disconnects hs) s0))) = max_retry)"
proof -
  let ?s = "wifi_events max_retry (consecutive_disconnects hs) s0"
  let ?s' = "wifi_event_handler max_retry h WIFI_EVENT_STA_DISCONNECTED ?s"
  from assms have "sint (s_retry_num s0) + int (length hs) \<le> max_retry" by simp
  from disconnects_within_budget [OF this assms(3)] assms(1)
  have a: "sint (s_retry_num ?s) = int (length hs)"
    and tr: "trace ?s = trace s0 @ replicate (length hs) Esp_wifi_connect"
    and c: "s_wifi_event_group ?s = s_wifi_event_group s0" by simp_all
  from tr have b: "new_calls s0 ?s = replicate (length hs) Esp_wifi_connect"
    by (simp add: new_calls_def)
  have d: "int (length hs) = max_retry \<longrightarrow>
            new_calls ?s ?s' = [XEventGroupSetBits WIFI_FAIL_BIT] \<and>
            sint (s_retry_num ?s') = max_retry"
  proof
    assume eq: "int (length hs) = max_retry"
    with a have "\<not> sint (s_retry_num ?s) < max_retry" by simp
    from disconnect_spent [OF this] a eq
    show "new_calls ?s ?s' = [XEventGroupSetBits WIFI_FAIL_BIT] \<and>
        sint (s_retry_num ?s') = max_retry"
      by (simp add: new_calls_def)
  qed
  from a b c d show ?thesis by blast
qed

theorem bounded_retry_run_witness:
  "sint (s_retry_num (wifi_events 3
       (consecutive_disconnects [Httpd_ok 1, Httpd_ok 1, Httpd_ok 1]) boot)) = 3 \<and>
   new_calls boot (wifi_events 3
       (consecutive_disconnects [Httpd_ok 1, Httpd_ok 1, Httpd_ok 1]) boot)
     = [Esp_wifi_connect, Esp_wifi_connect, Esp_wifi_connect] \<and>
   new_calls (wifi_events 3 (consecutive_disconnects [Httpd_ok 1, Httpd_ok 1, Httpd_ok 1]) boot)
     (wifi_event_handler 3 (Httpd_ok 1) WIFI_EVENT_STA_DISCONNECTED
       (wifi_events 3 (consecutive_disconnects [Httpd_ok 1, Httpd_ok 1, Httpd_ok 1]) boot))
     = [XEventGroupSetBits WIFI_FAIL_BIT]"
proof -
  let ?hs = "[Httpd_ok 1, Httpd_ok 1, Httpd_ok 1]"
  have b: "s_retry_num boot = 0" by (simp add: boot_def)
  have len: "int (length ?hs) \<le> 3" by simp
  have m: "(3 :: int) \<le> INT_MAX" by (simp add: INT_MAX_def)
  have rep: "replicate (length ?hs) Esp_wifi_connect
      = [Esp_wifi_connect, Esp_wifi_connect, Esp_wifi_connect]" by simp
  from bounded_retry_run [OF b len m, of "Httpd_ok 1"] rep
  show ?thesis by (simp del: wifi_event_handler.simps)
qed

text \<open>
  C2, as the code has it, for a retry budget within the range of a C \<^verbatim>\<open>int\<close>. A
  disconnect event that finds the counter below the budget adds exactly 1 to it and
  makes one call, the reconnect. A disconnect event that finds the counter at the
  budget or above leaves the counter as it is and makes one call, the Fail signal.
  So the Fail signal fires exactly when a disconnect event finds the counter at or
  above the budget, and a counter within the budget stays within it.
\<close>

theorem disconnect_counts_or_gives_up:
  assumes "max_retry \<le> INT_MAX"
  shows
  "(sint (s_retry_num s) < max_retry \<longrightarrow>
      sint (s_retry_num (wifi_event_handler max_retry h WIFI_EVENT_STA_DISCONNECTED s))
        = sint (s_retry_num s) + 1 \<and>
      new_calls s (wifi_event_handler max_retry h WIFI_EVENT_STA_DISCONNECTED s)
        = [Esp_wifi_connect]) \<and>
   (max_retry \<le> sint (s_retry_num s) \<longrightarrow>
      s_retry_num (wifi_event_handler max_retry h WIFI_EVENT_STA_DISCONNECTED s)
        = s_retry_num s \<and>
      new_calls s (wifi_event_handler max_retry h WIFI_EVENT_STA_DISCONNECTED s)
        = [XEventGroupSetBits WIFI_FAIL_BIT]) \<and>
   (XEventGroupSetBits WIFI_FAIL_BIT
      \<in> set (new_calls s (wifi_event_handler max_retry h WIFI_EVENT_STA_DISCONNECTED s))
    \<longleftrightarrow> max_retry \<le> sint (s_retry_num s)) \<and>
   (sint (s_retry_num s) \<le> max_retry \<longrightarrow>
      sint (s_retry_num (wifi_event_handler max_retry h WIFI_EVENT_STA_DISCONNECTED s))
        \<le> max_retry)"
proof (cases "sint (s_retry_num s) < max_retry")
  case True
  from disconnect_below [OF True, of h] sint_increment [OF True assms] True show ?thesis
    by (simp add: new_calls_def del: wifi_event_handler.simps)
next
  case False
  from disconnect_spent [OF False, of h] False show ?thesis
    by (simp add: new_calls_def del: wifi_event_handler.simps)
qed

theorem disconnect_counts_or_gives_up_witness:
  "sint (s_retry_num (wifi_event_handler 3 (Httpd_ok 1) WIFI_EVENT_STA_DISCONNECTED boot)) = 1 \<and>
   new_calls boot (wifi_event_handler 3 (Httpd_ok 1) WIFI_EVENT_STA_DISCONNECTED boot)
     = [Esp_wifi_connect] \<and>
   s_retry_num (wifi_event_handler 0 (Httpd_ok 1) WIFI_EVENT_STA_DISCONNECTED boot) = 0 \<and>
   new_calls boot (wifi_event_handler 0 (Httpd_ok 1) WIFI_EVENT_STA_DISCONNECTED boot)
     = [XEventGroupSetBits WIFI_FAIL_BIT]"
proof -
  have b: "s_retry_num boot = 0" by (simp add: boot_def)
  have m: "(3 :: int) \<le> INT_MAX" "(0 :: int) \<le> INT_MAX" by (simp_all add: INT_MAX_def)
  from disconnect_counts_or_gives_up [OF m(1), of boot "Httpd_ok 1"]
    disconnect_counts_or_gives_up [OF m(2), of boot "Httpd_ok 1"] b
  show ?thesis by (simp del: wifi_event_handler.simps)
qed

text \<open>
  C2 as worded fails. With a budget of 3, the fourth disconnect event in a row finds
  the counter at 3: it does not add 1 to the counter, and the Fail signal fires
  although the counter is not above 3, neither before nor after the event.
\<close>

theorem fail_fires_at_budget_not_above:
  "s_retry_num (wifi_event_handler 3 (Httpd_ok 1) WIFI_EVENT_STA_DISCONNECTED
       (wifi_events 3 (consecutive_disconnects [Httpd_ok 1, Httpd_ok 1, Httpd_ok 1]) boot))
     \<noteq> s_retry_num
         (wifi_events 3 (consecutive_disconnects [Httpd_ok 1, Httpd_ok 1, Httpd_ok 1]) boot) + 1 \<and>
   XEventGroupSetBits WIFI_FAIL_BIT \<in> set (trace
     (wifi_event_handler 3 (Httpd_ok 1) WIFI_EVENT_STA_DISCONNECTED
       (wifi_events 3 (consecutive_disconnects [Httpd_ok 1, Httpd_ok 1, Httpd_ok 1]) boot))) \<and>
   \<not> 3 < sint (s_retry_num
     (wifi_event_handler 3 (Httpd_ok 1) WIFI_EVENT_STA_DISCONNECTED
       (wifi_events 3 (consecutive_disconnects [Httpd_ok 1, Httpd_ok 1, Httpd_ok 1]) boot))) \<and>
   sint (s_retry_num
       (wifi_events 3 (consecutive_disconnects [Httpd_ok 1, Httpd_ok 1, Httpd_ok 1]) boot)) = 3"
  by (simp add: consecutive_disconnects_def boot_def emit_def xEventGroupSetBits_def)

text \<open>
  C4. A successful connect (the got-IP event) leaves the retry counter at 0, whatever
  the counter, the retry budget and the rest of the state were before.
\<close>

theorem got_ip_resets_retry_counter:
  "s_retry_num (wifi_event_handler max_retry h IP_EVENT_STA_GOT_IP s) = 0"
  by (simp add: s_retry_num_xEventGroupSetBits s_retry_num_web_server_start
      s_retry_num_led_control_set)

section \<open>Properties of the station supervisor\<close>

lemma terminal_zero: "s_wifi_event_group s = 0 \<Longrightarrow> \<not> terminal s"
  by (simp add: terminal_def)

lemma fail_bit_terminal: "s_wifi_event_group s = WIFI_FAIL_BIT \<Longrightarrow> terminal s"
  by (simp add: terminal_def WIFI_FAIL_BIT_def WIFI_CONNECTED_BIT_def)

lemma connected_bit_terminal: "s_wifi_event_group s = WIFI_CONNECTED_BIT \<Longrightarrow> terminal s"
  by (simp add: terminal_def WIFI_FAIL_BIT_def WIFI_CONNECTED_BIT_def)

lemma bits_distinct: "WIFI_CONNECTED_BIT \<noteq> WIFI_FAIL_BIT"
  by (simp add: WIFI_FAIL_BIT_def WIFI_CONNECTED_BIT_def)

lemma web_server_start_cases:
  "web_server_start h s =
     (if server s \<noteq> None
      then emit [Web_server_start, Esp_log ''HTTP server already running''] s
      else
        (case h of
           Httpd_err e \<Rightarrow> emit [Web_server_start, Httpd_start h] s
         | Httpd_ok handle \<Rightarrow>
             emit (Web_server_start # Httpd_start h # uri_handlers) (s\<lparr>server := Some handle\<rparr>)))"
  by (cases h) (simp_all add: web_server_start_def Let_def emit_def)

text \<open>Everything the got-IP branch does, from a state with no event bit set.\<close>

lemma got_ip_effects:
  assumes "s_wifi_event_group q = 0"
  shows "count_list (new_calls q (wifi_event_handler m h IP_EVENT_STA_GOT_IP q))
           (Led_control_set 1) = 1"
    and "count_list (new_calls q (wifi_event_handler m h IP_EVENT_STA_GOT_IP q))
           (Gpio_set_level 1) = 1"
    and "count_list (new_calls q (wifi_event_handler m h IP_EVENT_STA_GOT_IP q))
           Web_server_start = 1"
    and "length (filter is_httpd_start
           (new_calls q (wifi_event_handler m h IP_EVENT_STA_GOT_IP q)))
           = (if server q = None then 1 else 0)"
    and "length (filter httpd_started
           (new_calls q (wifi_event_handler m h IP_EVENT_STA_GOT_IP q)))
           = (if server q = None \<and> server (wifi_event_handler m h IP_EVENT_STA_GOT_IP q) \<noteq> None
              then 1 else 0)"
    and "server q \<noteq> None \<longrightarrow> server (wifi_event_handler m h IP_EVENT_STA_GOT_IP q) = server q"
    and "trace (wifi_event_handler m h IP_EVENT_STA_GOT_IP q)
           = trace q @ new_calls q (wifi_event_handler m h IP_EVENT_STA_GOT_IP q)"
    and "last (trace (wifi_event_handler m h IP_EVENT_STA_GOT_IP q))
           = XEventGroupSetBits WIFI_CONNECTED_BIT"
    and "s_led_on (wifi_event_handler m h IP_EVENT_STA_GOT_IP q) = 1"
    and "s_wifi_event_group (wifi_event_handler m h IP_EVENT_STA_GOT_IP q) = WIFI_CONNECTED_BIT"
  using assms
  by (cases h; cases "server q = None";
      simp add: web_server_start_cases led_control_set_def xEventGroupSetBits_def emit_def
        new_calls_def uri_handlers_def)+

lemma released_after_connect:
  assumes s1: "trace s1 = trace s @ [Esp_wifi_connect]" "s_led_on s1 = s_led_on s"
      "server s1 = server s"
    and r: "(bits = WIFI_CONNECTED_BIT \<and> released_connected m s1 s') \<or>
       (bits = WIFI_FAIL_BIT \<and> released_failed s1 s')"
  shows "(bits = WIFI_CONNECTED_BIT \<and> released_connected m s s') \<or>
       (bits = WIFI_FAIL_BIT \<and> released_failed s s')"
  using r
proof
  assume "bits = WIFI_CONNECTED_BIT \<and> released_connected m s1 s'"
  then obtain k h q where "bits = WIFI_CONNECTED_BIT"
    "trace q = trace s1 @ replicate k Esp_wifi_connect"
    "s_led_on q = s_led_on s1" "server q = server s1" "s_wifi_event_group q = 0"
    "s' = wifi_event_handler m h IP_EVENT_STA_GOT_IP q"
    unfolding released_connected_def by blast
  then show ?thesis unfolding released_connected_def using s1
    by (intro disjI1 conjI exI [of _ "Suc k"] exI [of _ h] exI [of _ q]) simp_all
next
  assume "bits = WIFI_FAIL_BIT \<and> released_failed s1 s'"
  then obtain k where "bits = WIFI_FAIL_BIT"
    "trace s' = trace s1 @ replicate k Esp_wifi_connect @ [XEventGroupSetBits WIFI_FAIL_BIT]"
    "s_led_on s' = s_led_on s1" "server s' = server s1"
    unfolding released_failed_def by blast
  then show ?thesis unfolding released_failed_def using s1
    by (intro disjI2 conjI exI [of _ "Suc k"]) simp_all
qed

lemma wait_at_terminal:
  "terminal s \<Longrightarrow> xEventGroupWaitBits m es s = Some (s_wifi_event_group s, s)"
  by (cases es) auto

lemma wait_released:
  "xEventGroupWaitBits m es s = Some (bits, s') \<Longrightarrow> s_wifi_event_group s = 0 \<Longrightarrow>
   (bits = WIFI_CONNECTED_BIT \<and> released_connected m s s') \<or>
   (bits = WIFI_FAIL_BIT \<and> released_failed s s')"
proof (induction es arbitrary: s)
  case Nil
  then show ?case by (simp add: terminal_zero)
next
  case (Cons he es)
  obtain h e where he: "he = (h, e)" by (cases he)
  let ?s1 = "wifi_event_handler m h e s"
  from Cons.prems he have run: "xEventGroupWaitBits m es ?s1 = Some (bits, s')"
    by (simp add: terminal_zero del: wifi_event_handler.simps)
  show ?case
  proof (cases e)
    case WIFI_EVENT_STA_START
    then have s1: "trace ?s1 = trace s @ [Esp_wifi_connect]" "s_wifi_event_group ?s1 = 0"
      "s_led_on ?s1 = s_led_on s" "server ?s1 = server s"
      using Cons.prems(2) by (simp_all add: emit_def)
    from released_after_connect [OF s1(1,3,4) Cons.IH [OF run s1(2)]] show ?thesis .
  next
    case WIFI_EVENT_STA_DISCONNECTED
    show ?thesis
    proof (cases "sint (s_retry_num s) < m")
      case True
      then have s1: "trace ?s1 = trace s @ [Esp_wifi_connect]" "s_wifi_event_group ?s1 = 0"
        "s_led_on ?s1 = s_led_on s" "server ?s1 = server s"
        using Cons.prems(2) WIFI_EVENT_STA_DISCONNECTED by (simp_all add: emit_def)
      from released_after_connect [OF s1(1,3,4) Cons.IH [OF run s1(2)]] show ?thesis .
    next
      case False
      then have s1: "trace ?s1 = trace s @ [XEventGroupSetBits WIFI_FAIL_BIT]"
        "s_wifi_event_group ?s1 = WIFI_FAIL_BIT" "s_led_on ?s1 = s_led_on s" "server ?s1 = server s"
        using Cons.prems(2) WIFI_EVENT_STA_DISCONNECTED
        by (simp_all add: xEventGroupSetBits_def emit_def)
      from run wait_at_terminal [OF fail_bit_terminal [OF s1(2)], of m es] s1(2)
      have "bits = WIFI_FAIL_BIT" "s' = ?s1" by simp_all
      with s1 show ?thesis unfolding released_failed_def
        by (intro disjI2 conjI exI [of _ 0]) simp_all
    qed
  next
    case IP_EVENT_STA_GOT_IP
    note g = got_ip_effects(10) [OF Cons.prems(2), of m h]
    from run wait_at_terminal [OF connected_bit_terminal [OF g], of m es] g IP_EVENT_STA_GOT_IP
    have r: "bits = WIFI_CONNECTED_BIT" "s' = wifi_event_handler m h IP_EVENT_STA_GOT_IP s"
      by simp_all
    with Cons.prems(2) show ?thesis unfolding released_connected_def
      by (intro disjI1 conjI exI [of _ 0] exI [of _ h] exI [of _ s]) simp_all
  next
    case OTHER_EVENT
    with run Cons.IH [of s] Cons.prems(2) show ?thesis by simp
  qed
qed

lemma wait_first:
  "xEventGroupWaitBits m es s = Some (bits, s') \<Longrightarrow>
   \<exists>n\<le>length es. s' = wifi_events m (take n es) s \<and>
      (\<forall>k<n. \<not> terminal (wifi_events m (take k es) s)) \<and>
      terminal s' \<and> bits = s_wifi_event_group s'"
proof (induction es arbitrary: s)
  case Nil
  then show ?case by (auto split: if_splits)
next
  case (Cons he es)
  obtain h e where he: "he = (h, e)" by (cases he)
  show ?case
  proof (cases "terminal s")
    case True
    with Cons.prems he have "bits = s_wifi_event_group s" "s' = s" by auto
    with True show ?thesis by (intro exI [of _ 0]) simp
  next
    case False
    let ?s1 = "wifi_event_handler m h e s"
    from Cons.prems he False have "xEventGroupWaitBits m es ?s1 = Some (bits, s')"
      by (simp del: wifi_event_handler.simps)
    from Cons.IH [OF this] obtain n where n: "n \<le> length es"
      "s' = wifi_events m (take n es) ?s1"
      "\<forall>k<n. \<not> terminal (wifi_events m (take k es) ?s1)"
      "terminal s'" "bits = s_wifi_event_group s'" by blast
    have "\<forall>k<Suc n. \<not> terminal (wifi_events m (take k (he # es)) s)"
    proof (intro allI impI)
      fix k assume k: "k < Suc n"
      show "\<not> terminal (wifi_events m (take k (he # es)) s)"
      proof (cases k)
        case 0
        with False show ?thesis by simp
      next
        case (Suc j)
        with k n(3) he show ?thesis by (simp del: wifi_event_handler.simps)
      qed
    qed
    with n he show ?thesis
      by (intro exI [of _ "Suc n"]) (simp del: wifi_event_handler.simps)
  qed
qed

lemma wait_returns_on_got_ip:
  "IP_EVENT_STA_GOT_IP \<in> snd ` set es \<Longrightarrow> s_wifi_event_group s = 0 \<Longrightarrow>
   \<exists>r. xEventGroupWaitBits m es s = Some r"
proof (induction es arbitrary: s)
  case Nil
  then show ?case by simp
next
  case (Cons he es)
  obtain h e where he: "he = (h, e)" by (cases he)
  let ?s1 = "wifi_event_handler m h e s"
  have step: "xEventGroupWaitBits m (he # es) s = xEventGroupWaitBits m es ?s1"
    using he Cons.prems(2) by (simp add: terminal_zero del: wifi_event_handler.simps)
  show ?case
  proof (cases e)
    case WIFI_EVENT_STA_START
    with Cons.prems he have "IP_EVENT_STA_GOT_IP \<in> snd ` set es" "s_wifi_event_group ?s1 = 0"
      by (auto simp: emit_def)
    from Cons.IH [OF this] step show ?thesis by simp
  next
    case WIFI_EVENT_STA_DISCONNECTED
    show ?thesis
    proof (cases "sint (s_retry_num s) < m")
      case True
      with WIFI_EVENT_STA_DISCONNECTED Cons.prems he
      have "IP_EVENT_STA_GOT_IP \<in> snd ` set es" "s_wifi_event_group ?s1 = 0"
        by (auto simp: emit_def)
      from Cons.IH [OF this] step show ?thesis by simp
    next
      case False
      with WIFI_EVENT_STA_DISCONNECTED Cons.prems(2)
      have "s_wifi_event_group ?s1 = WIFI_FAIL_BIT"
        by (simp add: xEventGroupSetBits_def emit_def)
      from wait_at_terminal [OF fail_bit_terminal [OF this], of m es] step show ?thesis by simp
    qed
  next
    case IP_EVENT_STA_GOT_IP
    from got_ip_effects(10) [OF Cons.prems(2), of m h] IP_EVENT_STA_GOT_IP
    have "s_wifi_event_group ?s1 = WIFI_CONNECTED_BIT" by simp
    from wait_at_terminal [OF connected_bit_terminal [OF this], of m es] step show ?thesis by simp
  next
    case OTHER_EVENT
    with Cons.prems he have "IP_EVENT_STA_GOT_IP \<in> snd ` set es" "s_wifi_event_group ?s1 = 0"
      by auto
    from Cons.IH [OF this] step show ?thesis by simp
  qed
qed

lemma wifi_manager_start_returns:
  assumes "list_all (\<lambda>rc. rc = ESP_OK) rcs" and "IP_EVENT_STA_GOT_IP \<in> snd ` set es"
  shows "\<exists>r. wifi_manager_start m rcs es s0 = Inr r"
proof -
  from assms(1) have ok: "\<not> list_ex (\<lambda>rc. rc \<noteq> ESP_OK) rcs"
    by (simp add: list_all_iff list_ex_iff)
  from wait_returns_on_got_ip [OF assms(2), of "s0\<lparr>s_wifi_event_group := 0\<rparr>" m]
  obtain b s where "xEventGroupWaitBits m es (s0\<lparr>s_wifi_event_group := 0\<rparr>) = Some (b, s)"
    by auto
  with ok show ?thesis by (simp add: wifi_manager_start_def)
qed

lemma count_list_replicate_other: "x \<noteq> y \<Longrightarrow> count_list (replicate k x) y = 0"
  by (induction k) simp_all


lemma new_calls_append:
  "trace s' = trace q @ xs \<Longrightarrow> trace q = trace s0 @ ys \<Longrightarrow> new_calls s0 s' = ys @ xs"
  by (simp add: new_calls_def)

lemma filter_replicate_other: "\<not> P x \<Longrightarrow> filter P (replicate k x) = []"
  by (induction k) simp_all

text \<open>
  C5, as the code has it. When \<^verbatim>\<open>wifi_manager_start\<close> returns, it was released by the
  first terminal signal: the state it returns in is the one right after some event,
  no state before that one had a terminal bit set, and the bits it was released with
  are exactly the Connected bit or exactly the Fail bit.

  Released by Connected, the calls made since it was entered hold exactly one
  \<^verbatim>\<open>led_control_set(1)\<close> with its one \<^verbatim>\<open>gpio_set_level(pin, 1)\<close>, and exactly one
  \<^verbatim>\<open>web_server_start()\<close>; the LED is on, and the Connected signal is the last call,
  after all of these. That one \<^verbatim>\<open>web_server_start()\<close> calls \<^verbatim>\<open>httpd_start\<close> once when
  no server was running and not at all otherwise; it starts a server at most once,
  and exactly when none was running and one runs afterwards. A server that was
  running is left as it was. (Whether one runs afterwards is up to \<^verbatim>\<open>httpd_start\<close>:
  the Connected signal is given either way.)

  Released by Fail, the only calls made are reconnects and the Fail signal, and the
  LED and the server handle are as they were.
\<close>

theorem supervisor_release:
  assumes "wifi_manager_start m rcs es s0 = Inr (bits, s')"
  shows "(\<exists>n\<le>length es. s' = wifi_events m (take n es) (s0\<lparr>s_wifi_event_group := 0\<rparr>) \<and>
            (\<forall>k<n. \<not> terminal (wifi_events m (take k es) (s0\<lparr>s_wifi_event_group := 0\<rparr>)))) \<and>
         terminal s' \<and> bits = s_wifi_event_group s' \<and>
         (bits = WIFI_CONNECTED_BIT \<or> bits = WIFI_FAIL_BIT) \<and>
         (bits = WIFI_CONNECTED_BIT \<longrightarrow>
            count_list (new_calls s0 s') (Led_control_set 1) = 1 \<and>
            count_list (new_calls s0 s') (Gpio_set_level 1) = 1 \<and>
            count_list (new_calls s0 s') Web_server_start = 1 \<and>
            s_led_on s' = 1 \<and> last (trace s') = XEventGroupSetBits WIFI_CONNECTED_BIT \<and>
            length (filter is_httpd_start (new_calls s0 s'))
              = (if server s0 = None then 1 else 0) \<and>
            length (filter httpd_started (new_calls s0 s'))
              = (if server s0 = None \<and> server s' \<noteq> None then 1 else 0) \<and>
            (server s0 \<noteq> None \<longrightarrow> server s' = server s0)) \<and>
         (bits = WIFI_FAIL_BIT \<longrightarrow>
            set (new_calls s0 s') \<subseteq> {Esp_wifi_connect, XEventGroupSetBits WIFI_FAIL_BIT} \<and>
            s_led_on s' = s_led_on s0 \<and> server s' = server s0)"
proof -
  let ?s = "s0\<lparr>s_wifi_event_group := 0\<rparr>"
  from assms have w: "xEventGroupWaitBits m es ?s = Some (bits, s')"
    by (simp add: wifi_manager_start_def split: if_splits option.splits)
  from wait_first [OF w] have first:
    "(\<exists>n\<le>length es. s' = wifi_events m (take n es) ?s \<and>
        (\<forall>k<n. \<not> terminal (wifi_events m (take k es) ?s)))"
    and t: "terminal s'" "bits = s_wifi_event_group s'" by blast+
  from wait_released [OF w] have r:
    "(bits = WIFI_CONNECTED_BIT \<and> released_connected m ?s s') \<or>
     (bits = WIFI_FAIL_BIT \<and> released_failed ?s s')" by simp
  then have which: "bits = WIFI_CONNECTED_BIT \<or> bits = WIFI_FAIL_BIT" by blast
  have conn: "bits = WIFI_CONNECTED_BIT \<longrightarrow>
            count_list (new_calls s0 s') (Led_control_set 1) = 1 \<and>
            count_list (new_calls s0 s') (Gpio_set_level 1) = 1 \<and>
            count_list (new_calls s0 s') Web_server_start = 1 \<and>
            s_led_on s' = 1 \<and> last (trace s') = XEventGroupSetBits WIFI_CONNECTED_BIT \<and>
            length (filter is_httpd_start (new_calls s0 s'))
              = (if server s0 = None then 1 else 0) \<and>
            length (filter httpd_started (new_calls s0 s'))
              = (if server s0 = None \<and> server s' \<noteq> None then 1 else 0) \<and>
            (server s0 \<noteq> None \<longrightarrow> server s' = server s0)"
  proof
    assume b: "bits = WIFI_CONNECTED_BIT"
    with r bits_distinct have "released_connected m ?s s'" by auto
    then obtain k h q where q: "trace q = trace s0 @ replicate k Esp_wifi_connect"
      "s_led_on q = s_led_on s0" "server q = server s0" "s_wifi_event_group q = 0"
      and s': "s' = wifi_event_handler m h IP_EVENT_STA_GOT_IP q"
      unfolding released_connected_def by auto
    note g = got_ip_effects [OF q(4), of m h, folded s']
    from new_calls_append [OF g(7) q(1)]
    have n: "new_calls s0 s' = replicate k Esp_wifi_connect @ new_calls q s'" .
    have "count_list (new_calls s0 s') (Led_control_set 1) = 1"
      unfolding n using g(1) by (simp add: count_list_replicate_other)
    moreover have "count_list (new_calls s0 s') (Gpio_set_level 1) = 1"
      unfolding n using g(2) by (simp add: count_list_replicate_other)
    moreover have "count_list (new_calls s0 s') Web_server_start = 1"
      unfolding n using g(3) by (simp add: count_list_replicate_other)
    moreover have "length (filter is_httpd_start (new_calls s0 s'))
              = (if server s0 = None then 1 else 0)"
      unfolding n using g(4) q(3) by (simp add: filter_replicate_other)
    moreover have "length (filter httpd_started (new_calls s0 s'))
              = (if server s0 = None \<and> server s' \<noteq> None then 1 else 0)"
      unfolding n using g(5) q(3) by (simp add: filter_replicate_other)
    moreover have "server s0 \<noteq> None \<longrightarrow> server s' = server s0"
      using g(6) q(3) by simp
    ultimately show "count_list (new_calls s0 s') (Led_control_set 1) = 1 \<and>
            count_list (new_calls s0 s') (Gpio_set_level 1) = 1 \<and>
            count_list (new_calls s0 s') Web_server_start = 1 \<and>
            s_led_on s' = 1 \<and> last (trace s') = XEventGroupSetBits WIFI_CONNECTED_BIT \<and>
            length (filter is_httpd_start (new_calls s0 s'))
              = (if server s0 = None then 1 else 0) \<and>
            length (filter httpd_started (new_calls s0 s'))
              = (if server s0 = None \<and> server s' \<noteq> None then 1 else 0) \<and>
            (server s0 \<noteq> None \<longrightarrow> server s' = server s0)"
      using g(8) g(9) by blast
  qed
  have fail: "bits = WIFI_FAIL_BIT \<longrightarrow>
            set (new_calls s0 s') \<subseteq> {Esp_wifi_connect, XEventGroupSetBits WIFI_FAIL_BIT} \<and>
            s_led_on s' = s_led_on s0 \<and> server s' = server s0"
  proof
    assume b: "bits = WIFI_FAIL_BIT"
    with r bits_distinct have "released_failed ?s s'" by auto
    then obtain k where tr: "trace s' = trace s0 @ replicate k Esp_wifi_connect
        @ [XEventGroupSetBits WIFI_FAIL_BIT]"
      and rest: "s_led_on s' = s_led_on s0" "server s' = server s0"
      unfolding released_failed_def by auto
    from tr have "new_calls s0 s' = replicate k Esp_wifi_connect @ [XEventGroupSetBits WIFI_FAIL_BIT]"
      by (simp add: new_calls_def)
    then have "set (new_calls s0 s') \<subseteq> {Esp_wifi_connect, XEventGroupSetBits WIFI_FAIL_BIT}"
      by auto
    with rest show "set (new_calls s0 s') \<subseteq> {Esp_wifi_connect, XEventGroupSetBits WIFI_FAIL_BIT} \<and>
            s_led_on s' = s_led_on s0 \<and> server s' = server s0" by simp
  qed
  from first t which conn fail show ?thesis by blast
qed

theorem supervisor_release_witness:
  "(\<exists>s'. wifi_manager_start 3 [0, 0, 0, 0, 0, 0, 0, 0]
      [(Httpd_ok 1, WIFI_EVENT_STA_START), (Httpd_ok 1, WIFI_EVENT_STA_DISCONNECTED),
       (Httpd_ok 1, WIFI_EVENT_STA_DISCONNECTED), (Httpd_ok 1, IP_EVENT_STA_GOT_IP)] boot
      = Inr (WIFI_CONNECTED_BIT, s') \<and>
      count_list (new_calls boot s') (Led_control_set 1) = 1 \<and>
      count_list (new_calls boot s') (Gpio_set_level 1) = 1 \<and>
      count_list (new_calls boot s') Web_server_start = 1 \<and> s_led_on s' = 1 \<and>
      length (filter is_httpd_start (new_calls boot s')) = 1) \<and>
   (\<exists>s'. wifi_manager_start 1 [0, 0, 0, 0, 0, 0, 0, 0]
      [(Httpd_ok 1, WIFI_EVENT_STA_START), (Httpd_ok 1, WIFI_EVENT_STA_DISCONNECTED),
       (Httpd_ok 1, WIFI_EVENT_STA_DISCONNECTED), (Httpd_ok 1, IP_EVENT_STA_GOT_IP)] boot
      = Inr (WIFI_FAIL_BIT, s') \<and>
      set (new_calls boot s') \<subseteq> {Esp_wifi_connect, XEventGroupSetBits WIFI_FAIL_BIT} \<and>
      s_led_on s' = 0 \<and> server s' = None)"
proof -
  let ?es = "[(Httpd_ok 1, WIFI_EVENT_STA_START), (Httpd_ok 1, WIFI_EVENT_STA_DISCONNECTED),
       (Httpd_ok 1, WIFI_EVENT_STA_DISCONNECTED), (Httpd_ok 1, IP_EVENT_STA_GOT_IP)]"
  have c: "\<exists>s'. wifi_manager_start 3 [0, 0, 0, 0, 0, 0, 0, 0] ?es boot = Inr (WIFI_CONNECTED_BIT, s')"
    by (simp add: wifi_manager_start_def ESP_OK_def boot_def terminal_def emit_def
        WIFI_CONNECTED_BIT_def WIFI_FAIL_BIT_def xEventGroupSetBits_def led_control_set_def
        web_server_start_def Let_def)
  have f: "\<exists>s'. wifi_manager_start 1 [0, 0, 0, 0, 0, 0, 0, 0] ?es boot = Inr (WIFI_FAIL_BIT, s')"
    by (simp add: wifi_manager_start_def ESP_OK_def boot_def terminal_def emit_def
        WIFI_CONNECTED_BIT_def WIFI_FAIL_BIT_def xEventGroupSetBits_def led_control_set_def
        web_server_start_def Let_def)
  from c obtain s1 where s1: "wifi_manager_start 3 [0, 0, 0, 0, 0, 0, 0, 0] ?es boot = Inr (WIFI_CONNECTED_BIT, s1)" ..
  from f obtain s2 where s2: "wifi_manager_start 1 [0, 0, 0, 0, 0, 0, 0, 0] ?es boot = Inr (WIFI_FAIL_BIT, s2)" ..
  have b0: "s_led_on boot = 0" "server boot = None" by (simp_all add: boot_def)
  from supervisor_release [OF s1] supervisor_release [OF s2] s1 s2 bits_distinct b0
  show ?thesis by auto
qed

text \<open>
  C5 as worded fails. \<^verbatim>\<open>httpd_start\<close> can report an error (a code other than
  \<^verbatim>\<open>ESP_OK\<close>); \<^verbatim>\<open>web_server_start\<close> then logs and returns, and the handler
  gives the Connected signal all the same. The supervisor returns, released by
  Connected, with no request server started: the handle is still NULL and the only
  \<^verbatim>\<open>httpd_start\<close> call failed.
\<close>

theorem connected_without_request_server:
  "wifi_manager_start 3 [0, 0, 0, 0, 0, 0, 0, 0]
      [(Httpd_err 0xB007, WIFI_EVENT_STA_START), (Httpd_err 0xB007, IP_EVENT_STA_GOT_IP)] boot
    = Inr (WIFI_CONNECTED_BIT,
        \<lparr>s_led_on = 1, server = None, s_retry_num = 0, s_wifi_event_group = WIFI_CONNECTED_BIT,
         trace = [Esp_wifi_connect, Led_control_set 1, Gpio_set_level 1, Web_server_start,
                  Httpd_start (Httpd_err 0xB007), XEventGroupSetBits WIFI_CONNECTED_BIT]\<rparr>)"
  by (simp add: wifi_manager_start_def ESP_OK_def boot_def terminal_def emit_def
      WIFI_CONNECTED_BIT_def WIFI_FAIL_BIT_def xEventGroupSetBits_def led_control_set_def
      web_server_start_def Let_def)

section \<open>Properties of the request server\<close>

lemma filter_uri_handlers: "filter httpd_started uri_handlers = []"
  by (simp add: uri_handlers_def)

lemma web_server_start_running:
  "server s \<noteq> None \<Longrightarrow>
   web_server_start h s = emit [Web_server_start, Esp_log ''HTTP server already running''] s"
  by (simp add: web_server_start_def Let_def emit_def)

lemma web_server_start_stopped:
  "server s = None \<Longrightarrow>
   web_server_start h s =
     (case h of
        Httpd_err e \<Rightarrow> emit [Web_server_start, Httpd_start h] s
      | Httpd_ok handle \<Rightarrow>
          emit (Web_server_start # Httpd_start h # uri_handlers) (s\<lparr>server := Some handle\<rparr>))"
  by (cases h) (simp_all add: web_server_start_def Let_def emit_def)

lemma web_server_starts_calls:
  "\<exists>cs. trace (web_server_starts hs s) = trace s @ cs \<and>
        length (filter httpd_started cs) \<le> (if server s = None then 1 else 0) \<and>
        (server s \<noteq> None \<longrightarrow> server (web_server_starts hs s) = server s)"
proof (induction hs arbitrary: s)
  case Nil
  then show ?case by simp
next
  case (Cons h hs)
  let ?s1 = "web_server_start h s"
  from Cons.IH [of ?s1] obtain cs where cs: "trace (web_server_starts hs ?s1) = trace ?s1 @ cs"
    "length (filter httpd_started cs) \<le> (if server ?s1 = None then 1 else 0)"
    "server ?s1 \<noteq> None \<longrightarrow> server (web_server_starts hs ?s1) = server ?s1" by blast
  show ?case
  proof (cases "server s = None")
    case False
    then have s1: "trace ?s1 = trace s @ [Web_server_start, Esp_log ''HTTP server already running'']"
      "server ?s1 = server s"
      by (simp_all add: web_server_start_running emit_def)
    with cs False show ?thesis
      by (intro exI [of _ "[Web_server_start, Esp_log ''HTTP server already running''] @ cs"]) simp
  next
    case True
    show ?thesis
    proof (cases h)
      case (Httpd_err e)
      with True have s1: "trace ?s1 = trace s @ [Web_server_start, Httpd_start h]" "server ?s1 = None"
        by (simp_all add: web_server_start_stopped emit_def)
      with cs True Httpd_err show ?thesis
        by (intro exI [of _ "[Web_server_start, Httpd_start h] @ cs"]) simp
    next
      case (Httpd_ok handle)
      with True have s1: "trace ?s1 = trace s @ Web_server_start # Httpd_start h # uri_handlers"
        "server ?s1 \<noteq> None"
        by (simp_all add: web_server_start_stopped emit_def)
      from cs(2) s1(2) have none: "filter httpd_started cs = []" by simp
      from cs(1) s1(1) have "trace (web_server_starts (h # hs) s)
          = trace s @ (Web_server_start # Httpd_start h # uri_handlers) @ cs" by simp
      moreover have "length (filter httpd_started
          ((Web_server_start # Httpd_start h # uri_handlers) @ cs)) \<le> 1"
        using none Httpd_ok by (simp add: filter_uri_handlers)
      ultimately show ?thesis using True by auto
    qed
  qed
qed

text \<open>
  C8. While the server is running (the handle is not NULL), \<^verbatim>\<open>web_server_start\<close>
  does nothing but log: no static changes and \<^verbatim>\<open>httpd_start\<close> is not called. However
  often it is invoked and whatever \<^verbatim>\<open>httpd_start\<close> answers, at most one of the calls
  made starts an HTTP server, and none does when the server was already running. In
  particular an invocation right after one that started the server only logs.
\<close>

theorem web_server_start_idempotent:
  "(server s \<noteq> None \<longrightarrow>
      web_server_start h s = emit [Web_server_start, Esp_log ''HTTP server already running''] s \<and>
      server (web_server_start h s) = server s) \<and>
   length (filter httpd_started (new_calls s (web_server_starts hs s)))
     \<le> (if server s = None then 1 else 0) \<and>
   web_server_starts [Httpd_ok handle, h] s =
     emit [Web_server_start, Esp_log ''HTTP server already running'']
       (web_server_start (Httpd_ok handle) s)"
proof -
  have a: "server s \<noteq> None \<longrightarrow>
      web_server_start h s = emit [Web_server_start, Esp_log ''HTTP server already running''] s \<and>
      server (web_server_start h s) = server s"
    by (simp add: web_server_start_running emit_def)
  from web_server_starts_calls [of hs s] obtain cs where
    "trace (web_server_starts hs s) = trace s @ cs"
    "length (filter httpd_started cs) \<le> (if server s = None then 1 else 0)" by blast
  then have b: "length (filter httpd_started (new_calls s (web_server_starts hs s)))
     \<le> (if server s = None then 1 else 0)"
    by (simp add: new_calls_def)
  have "server (web_server_start (Httpd_ok handle) s) \<noteq> None"
    by (cases "server s = None") (simp_all add: web_server_start_running web_server_start_stopped emit_def)
  then have c: "web_server_starts [Httpd_ok handle, h] s =
     emit [Web_server_start, Esp_log ''HTTP server already running'']
       (web_server_start (Httpd_ok handle) s)"
    by (simp add: web_server_start_running)
  from a b c show ?thesis by blast
qed

theorem web_server_start_idempotent_witness:
  "web_server_start (Httpd_ok 2) (web_server_start (Httpd_ok 1) boot) =
     emit [Web_server_start, Esp_log ''HTTP server already running'']
       (web_server_start (Httpd_ok 1) boot) \<and>
   server (web_server_start (Httpd_ok 2) (web_server_start (Httpd_ok 1) boot)) = Some 1 \<and>
   length (filter httpd_started
     (new_calls boot (web_server_starts [Httpd_err 1, Httpd_ok 1, Httpd_ok 2, Httpd_err 3] boot))) \<le> 1"
proof -
  have r: "server (web_server_start (Httpd_ok 1) boot) = Some 1"
    by (simp add: web_server_start_def boot_def emit_def Let_def)
  have b: "server boot = None" by (simp add: boot_def)
  from web_server_start_idempotent [of "web_server_start (Httpd_ok 1) boot" "Httpd_ok 2" "[]"]
    web_server_start_idempotent [of boot "Httpd_ok 2" "[Httpd_err 1, Httpd_ok 1, Httpd_ok 2, Httpd_err 3]"]
    r b
  show ?thesis by simp
qed

section \<open>Properties of the address codec\<close>

lemma nib_lo: "unat ((b::8 word) AND 15) = unat b mod 16"
proof -
  have "(15 :: 8 word) = mask 4" by (simp add: mask_eq_exp_minus_1)
  then have "b AND 15 = take_bit 4 b" by (simp add: take_bit_eq_mask)
  then show ?thesis by (simp add: take_bit_eq_mod unat_mod_distrib)
qed

lemma nib_hi: "unat (drop_bit 4 (b::8 word)) = unat b div 16"
  by (simp add: drop_bit_eq_div unat_div_distrib)

lemma hex_digits_read_back:
  "list_all (\<lambda>n. hex_value (''0123456789ABCDEF'' ! n) = Some n) [0..<16]"
  by code_simp

lemma hex_value_digit: "n < 16 \<Longrightarrow> hex_value (''0123456789ABCDEF'' ! n) = Some n"
  using hex_digits_read_back by (simp add: list_all_iff)

lemma nibble_bounds: "unat (b::8 word) div 16 < 16" "unat b mod 16 < 16"
proof -
  have "unat b < 256" using unsigned_less [of b] by simp
  then show "unat b div 16 < 16" by simp
  show "unat b mod 16 < 16" by simp
qed

lemma upper_hex_chars:
  "\<exists>x y. upper_hex b = [x, y] \<and> hex_value x = Some (unat b div 16) \<and>
         hex_value y = Some (unat b mod 16)"
  by (simp add: upper_hex_def nib_hi nib_lo hex_value_digit nibble_bounds)

lemma byte_of_nibbles: "of_nat (16 * (unat b div 16) + unat b mod 16) = (b::8 word)"
  by simp

lemma fmt_02X_upper_hex: "fmt_02X b = upper_hex b"
  by (simp add: fmt_02X_def upper_hex_def hex_digit_def nib_hi nib_lo)

lemma six_bytes:
  "length a = 6 \<Longrightarrow> \<exists>a0 a1 a2 a3 a4 a5. a = [a0, a1, a2, a3, a4, a5]"
  by (auto simp: numeral_eq_Suc length_Suc_conv)

lemma parse_display_form_inverse:
  assumes "length a = 6"
  shows "parse_display_form (display_form a) = Some a"
    and "length (display_form a) = 17"
proof -
  from six_bytes [OF assms] obtain a0 a1 a2 a3 a4 a5 where bytes: "a = [a0, a1, a2, a3, a4, a5]"
    by blast
  obtain x0 y0 where b0: "upper_hex a0 = [x0, y0]" "hex_value x0 = Some (unat a0 div 16)"
    "hex_value y0 = Some (unat a0 mod 16)" using upper_hex_chars [of a0] by blast
  obtain x1 y1 where b1: "upper_hex a1 = [x1, y1]" "hex_value x1 = Some (unat a1 div 16)"
    "hex_value y1 = Some (unat a1 mod 16)" using upper_hex_chars [of a1] by blast
  obtain x2 y2 where b2: "upper_hex a2 = [x2, y2]" "hex_value x2 = Some (unat a2 div 16)"
    "hex_value y2 = Some (unat a2 mod 16)" using upper_hex_chars [of a2] by blast
  obtain x3 y3 where b3: "upper_hex a3 = [x3, y3]" "hex_value x3 = Some (unat a3 div 16)"
    "hex_value y3 = Some (unat a3 mod 16)" using upper_hex_chars [of a3] by blast
  obtain x4 y4 where b4: "upper_hex a4 = [x4, y4]" "hex_value x4 = Some (unat a4 div 16)"
    "hex_value y4 = Some (unat a4 mod 16)" using upper_hex_chars [of a4] by blast
  obtain x5 y5 where b5: "upper_hex a5 = [x5, y5]" "hex_value x5 = Some (unat a5 div 16)"
    "hex_value y5 = Some (unat a5 mod 16)" using upper_hex_chars [of a5] by blast
  have form: "display_form a =
      [x5, y5, CHR '':'', x4, y4, CHR '':'', x3, y3, CHR '':'', x2, y2, CHR '':'',
       x1, y1, CHR '':'', x0, y0]"
    by (simp add: display_form_def bytes b0 b1 b2 b3 b4 b5)
  show "length (display_form a) = 17" by (simp add: form)
  have "parse_bytes (display_form a) = Some [a5, a4, a3, a2, a1, a0]"
    by (simp add: form b0 b1 b2 b3 b4 b5)
  then show "parse_display_form (display_form a) = Some a"
    by (simp add: parse_display_form_def bytes)
qed

lemma addr_to_string_display_form:
  assumes "length a = 6"
  shows "peripheral_addr_to_string a 18 = Some (display_form a)"
    and "central_addr_to_string a 18 = Some (display_form a)"
proof -
  from six_bytes [OF assms] obtain a0 a1 a2 a3 a4 a5 where bytes: "a = [a0, a1, a2, a3, a4, a5]"
    by blast
  show "peripheral_addr_to_string a 18 = Some (display_form a)"
    by (simp add: bytes peripheral_addr_to_string_def display_form_def snprintf_def
        fmt_02X_upper_hex upper_hex_def)
  show "central_addr_to_string a 18 = Some (display_form a)"
    by (simp add: bytes central_addr_to_string_def display_form_def snprintf_def
        fmt_02X_upper_hex upper_hex_def)
qed

text \<open>
  C7. For every identifier \<open>a\<close> of six bytes, both \<^verbatim>\<open>addr_to_string\<close> functions,
  called with the 18-byte buffer every call site passes, give the display form of
  the specification: the bytes in reversed order, each as two upper-case hexadecimal
  digits, separated by colons, 17 characters in all; reading that text back gives
  the six bytes again. The bytes 01 02 03 04 05 06 give \<open>06:05:04:03:02:01\<close>. The two
  role implementations are the same function.
\<close>

theorem address_codec:
  "(length a = 6 \<longrightarrow>
      peripheral_addr_to_string a 18 = Some (display_form a) \<and>
      central_addr_to_string a 18 = Some (display_form a) \<and>
      length (display_form a) = 17 \<and>
      parse_display_form (display_form a) = Some a) \<and>
   peripheral_addr_to_string [1, 2, 3, 4, 5, 6] 18 = Some ''06:05:04:03:02:01'' \<and>
   peripheral_addr_to_string = central_addr_to_string"
proof -
  have ex: "peripheral_addr_to_string [1, 2, 3, 4, 5, 6] 18 = Some ''06:05:04:03:02:01''"
    by (simp add: peripheral_addr_to_string_def snprintf_def fmt_02X_def hex_digit_def)
  have same: "peripheral_addr_to_string = central_addr_to_string"
    by (intro ext) (simp add: peripheral_addr_to_string_def central_addr_to_string_def)
  from ex same addr_to_string_display_form [of a] parse_display_form_inverse [of a]
  show ?thesis by blast
qed

theorem address_codec_witness:
  "peripheral_addr_to_string [0x11, 0x22, 0x33, 0x44, 0x55, 0x66] 18 = Some ''66:55:44:33:22:11'' \<and>
   central_addr_to_string [0x11, 0x22, 0x33, 0x44, 0x55, 0x66] 18 = Some ''66:55:44:33:22:11'' \<and>
   parse_display_form ''66:55:44:33:22:11'' = Some [0x11, 0x22, 0x33, 0x44, 0x55, 0x66]"
proof -
  have len: "length [0x11, 0x22, 0x33, 0x44, 0x55, 0x66 :: 8 word] = 6" by simp
  have form: "display_form [0x11, 0x22, 0x33, 0x44, 0x55, 0x66] = ''66:55:44:33:22:11''"
    by (simp add: display_form_def upper_hex_def drop_bit_eq_div)
  from address_codec [of "[0x11, 0x22, 0x33, 0x44, 0x55, 0x66]"] len form
  show ?thesis by simp
qed

section \<open>Properties of the link role controllers\<close>

lemma calls_issue: "calls (issue cs s) = calls s @ cs"
  by (simp add: issue_def)

lemma start_advertising_calls:
  "calls (snd (start_advertising env s)) =
     calls s @ Start_advertising # Ble_gap_adv_set_fields #
       (if adv_set_fields_rc env = 0 then [Ble_gap_adv_start (s_own_addr_type s)] else [])"
  by (simp add: start_advertising_def Let_def issue_def)

lemma start_advertising_statics:
  "s_is_connected (snd (start_advertising env s)) = s_is_connected s"
  "s_conn_handle (snd (start_advertising env s)) = s_conn_handle s"
  "s_own_addr_type (snd (start_advertising env s)) = s_own_addr_type s"
  by (simp_all add: start_advertising_def Let_def issue_def)

text \<open>
  C6, as the code has it. Peripheral role. Handling a Disconnect event, in any state,
  runs \<^verbatim>\<open>start_advertising\<close> exactly once and clears the flag. That run calls
  \<^verbatim>\<open>ble_gap_adv_set_fields\<close> once and then, if that call reported no error,
  \<^verbatim>\<open>ble_gap_adv_start\<close> once; if it reported an error, \<^verbatim>\<open>start_advertising\<close> returns
  at once, the handler ignores its return code, and \<^verbatim>\<open>ble_gap_adv_start\<close> is not
  called for this event. Handling an AdvertiseComplete event while not connected
  does the same. In no case is \<^verbatim>\<open>ble_gap_adv_start\<close> called twice.
\<close>

theorem peripheral_restarts_advertising_once:
  "ble_new_calls s (ble_peripheral_gap_event env (BLE_GAP_EVENT_DISCONNECT reason peer) s) =
     Start_advertising # Ble_gap_adv_set_fields #
       (if adv_set_fields_rc env = 0 then [Ble_gap_adv_start (s_own_addr_type s)] else []) \<and>
   count_list
     (ble_new_calls s (ble_peripheral_gap_event env (BLE_GAP_EVENT_DISCONNECT reason peer) s))
     Start_advertising = 1 \<and>
   count_list
     (ble_new_calls s (ble_peripheral_gap_event env (BLE_GAP_EVENT_DISCONNECT reason peer) s))
     (Ble_gap_adv_start (s_own_addr_type s)) = (if adv_set_fields_rc env = 0 then 1 else 0) \<and>
   \<not> s_is_connected (ble_peripheral_gap_event env (BLE_GAP_EVENT_DISCONNECT reason peer) s) \<and>
   (\<not> s_is_connected s \<longrightarrow>
      ble_new_calls s (ble_peripheral_gap_event env BLE_GAP_EVENT_ADV_COMPLETE s) =
        Start_advertising # Ble_gap_adv_set_fields #
          (if adv_set_fields_rc env = 0 then [Ble_gap_adv_start (s_own_addr_type s)] else []) \<and>
      count_list (ble_new_calls s (ble_peripheral_gap_event env BLE_GAP_EVENT_ADV_COMPLETE s))
        Start_advertising = 1 \<and>
      count_list (ble_new_calls s (ble_peripheral_gap_event env BLE_GAP_EVENT_ADV_COMPLETE s))
        (Ble_gap_adv_start (s_own_addr_type s)) = (if adv_set_fields_rc env = 0 then 1 else 0) \<and>
      \<not> s_is_connected (ble_peripheral_gap_event env BLE_GAP_EVENT_ADV_COMPLETE s))"
  by (simp add: ble_new_calls_def start_advertising_calls start_advertising_statics)

theorem peripheral_restarts_advertising_once_witness:
  "ble_new_calls (ble_boot 0)
     (ble_peripheral_gap_event
        \<lparr>adv_set_fields_rc = 0, adv_start_rc = 0, disc_cancel_rc = 0, connect_rc = 0, disc_rc = 0\<rparr>
        BLE_GAP_EVENT_ADV_COMPLETE (ble_boot 0)) =
     [Start_advertising, Ble_gap_adv_set_fields, Ble_gap_adv_start 0] \<and>
   ble_new_calls ((ble_boot 0)\<lparr>s_conn_handle := 1, s_is_connected := True\<rparr>)
     (ble_peripheral_gap_event
        \<lparr>adv_set_fields_rc = 0, adv_start_rc = 0, disc_cancel_rc = 0, connect_rc = 0, disc_rc = 0\<rparr>
        (BLE_GAP_EVENT_DISCONNECT 19 \<lparr>addr_type = 0, val = [1, 2, 3, 4, 5, 6]\<rparr>)
        ((ble_boot 0)\<lparr>s_conn_handle := 1, s_is_connected := True\<rparr>)) =
     [Start_advertising, Ble_gap_adv_set_fields, Ble_gap_adv_start 0] \<and>
   ble_new_calls ((ble_boot 0)\<lparr>s_conn_handle := 1, s_is_connected := True\<rparr>)
     (ble_peripheral_gap_event
        \<lparr>adv_set_fields_rc = 3, adv_start_rc = 0, disc_cancel_rc = 0, connect_rc = 0, disc_rc = 0\<rparr>
        (BLE_GAP_EVENT_DISCONNECT 19 \<lparr>addr_type = 0, val = [1, 2, 3, 4, 5, 6]\<rparr>)
        ((ble_boot 0)\<lparr>s_conn_handle := 1, s_is_connected := True\<rparr>)) =
     [Start_advertising, Ble_gap_adv_set_fields]"
proof -
  let ?ok = "\<lparr>adv_set_fields_rc = 0, adv_start_rc = 0, disc_cancel_rc = 0, connect_rc = 0,
      disc_rc = 0\<rparr>"
  let ?busy = "\<lparr>adv_set_fields_rc = 3, adv_start_rc = 0, disc_cancel_rc = 0, connect_rc = 0,
      disc_rc = 0\<rparr>"
  let ?linked = "(ble_boot 0)\<lparr>s_conn_handle := 1, s_is_connected := True\<rparr>"
  have b: "\<not> s_is_connected (ble_boot 0)" "s_own_addr_type (ble_boot 0) = 0"
    "s_own_addr_type ?linked = 0"
    by (simp_all add: ble_boot_def)
  from peripheral_restarts_advertising_once [of "ble_boot 0" ?ok]
    peripheral_restarts_advertising_once [of ?linked ?ok 19
      "\<lparr>addr_type = 0, val = [1, 2, 3, 4, 5, 6]\<rparr>"]
    peripheral_restarts_advertising_once [of ?linked ?busy 19
      "\<lparr>addr_type = 0, val = [1, 2, 3, 4, 5, 6]\<rparr>"] b
  show ?thesis by (simp del: ble_peripheral_gap_event.simps)
qed

text \<open>
  C6 as worded fails. The link is up and a Disconnect event arrives; the host answers
  \<^verbatim>\<open>ble_gap_adv_set_fields\<close> with an error code. The step makes that one call and
  stops: \<^verbatim>\<open>ble_gap_adv_start\<close> is not called, so the restart is skipped, and the
  flag is clear.
\<close>

theorem restart_skipped_when_set_fields_fails:
  "calls
     (ble_peripheral_gap_event
        \<lparr>adv_set_fields_rc = 12, adv_start_rc = 0, disc_cancel_rc = 0, connect_rc = 0, disc_rc = 0\<rparr>
        (BLE_GAP_EVENT_DISCONNECT 19 \<lparr>addr_type = 0, val = [1, 2, 3, 4, 5, 6]\<rparr>)
        (ble_peripheral_gap_event
          \<lparr>adv_set_fields_rc = 0, adv_start_rc = 0, disc_cancel_rc = 0, connect_rc = 0, disc_rc = 0\<rparr>
          (BLE_GAP_EVENT_CONNECT 0 1) (ble_boot 0)))
     = [Ble_gap_conn_find 1, Start_advertising, Ble_gap_adv_set_fields] \<and>
   \<not> s_is_connected
     (ble_peripheral_gap_event
        \<lparr>adv_set_fields_rc = 12, adv_start_rc = 0, disc_cancel_rc = 0, connect_rc = 0, disc_rc = 0\<rparr>
        (BLE_GAP_EVENT_DISCONNECT 19 \<lparr>addr_type = 0, val = [1, 2, 3, 4, 5, 6]\<rparr>)
        (ble_peripheral_gap_event
          \<lparr>adv_set_fields_rc = 0, adv_start_rc = 0, disc_cancel_rc = 0, connect_rc = 0, disc_rc = 0\<rparr>
          (BLE_GAP_EVENT_CONNECT 0 1) (ble_boot 0)))"
  by (simp add: ble_boot_def start_advertising_def issue_def Let_def)

lemma handle_inv_issue: "handle_inv (issue cs s) = handle_inv s"
  by (simp add: handle_inv_def issue_def)

lemma handle_inv_start_advertising: "handle_inv (snd (start_advertising env s)) = handle_inv s"
  by (simp add: handle_inv_def start_advertising_statics)

lemma handle_inv_start_scan: "handle_inv (snd (ble_central_start_scan env s)) = handle_inv s"
  by (simp add: handle_inv_def ble_central_start_scan_def issue_def)

lemma handle_inv_connect_to_device: "handle_inv (snd (connect_to_device env a s)) = handle_inv s"
  by (simp add: handle_inv_def connect_to_device_def issue_def)

lemma handle_inv_peripheral_event:
  "handle_inv s \<Longrightarrow> \<not> connect_succeeded ev \<Longrightarrow> handle_inv (ble_peripheral_gap_event env ev s)"
  by (cases ev)
    (simp_all add: handle_inv_issue handle_inv_start_advertising, simp_all add: handle_inv_def)

lemma handle_inv_central_event:
  "handle_inv s \<Longrightarrow> \<not> connect_succeeded ev \<Longrightarrow> handle_inv (ble_central_gap_event env ev s)"
  by (cases ev)
    (simp_all add: handle_inv_issue handle_inv_start_scan handle_inv_connect_to_device,
     simp_all add: handle_inv_def)

lemma handle_inv_connect_success:
  "handle_inv (ble_peripheral_gap_event env (BLE_GAP_EVENT_CONNECT 0 conn_handle) s)
     \<longleftrightarrow> conn_handle \<noteq> BLE_HS_CONN_HANDLE_NONE"
  "handle_inv (ble_central_gap_event env (BLE_GAP_EVENT_CONNECT 0 conn_handle) s)
     \<longleftrightarrow> conn_handle \<noteq> BLE_HS_CONN_HANDLE_NONE"
  by (simp_all add: handle_inv_def issue_def)

text \<open>
  C9, as the code has it. In both roles the connected flag is set only with a handle
  other than the sentinel stored: this holds for the statics as initialised; the
  host-reset callback establishes it; and every GAP event other than a connect that
  reports success keeps it (connect failure, disconnect, discovery hit, advertise
  and scan complete, parameter update, any other type). On a connect that reports
  success the handlers store the handle the event carries, unchecked, and set the
  flag: afterwards the invariant holds exactly when that handle is not the sentinel.
\<close>

theorem connected_flag_implies_handle:
  "handle_inv (ble_boot t) \<and>
   (handle_inv s \<and> \<not> connect_succeeded ev \<longrightarrow>
      handle_inv (ble_peripheral_gap_event env ev s) \<and>
      handle_inv (ble_central_gap_event env ev s)) \<and>
   (handle_inv (ble_peripheral_gap_event env (BLE_GAP_EVENT_CONNECT 0 conn_handle) s)
      \<longleftrightarrow> conn_handle \<noteq> BLE_HS_CONN_HANDLE_NONE) \<and>
   (handle_inv (ble_central_gap_event env (BLE_GAP_EVENT_CONNECT 0 conn_handle) s)
      \<longleftrightarrow> conn_handle \<noteq> BLE_HS_CONN_HANDLE_NONE) \<and>
   handle_inv (ble_peripheral_on_reset reason s) \<and>
   handle_inv (ble_central_on_reset reason s)"
proof -
  have "handle_inv (ble_boot t)" by (simp add: handle_inv_def ble_boot_def)
  moreover have "handle_inv (ble_peripheral_on_reset reason s)"
    "handle_inv (ble_central_on_reset reason s)"
    by (simp_all add: handle_inv_def ble_peripheral_on_reset_def ble_central_on_reset_def)
  ultimately show ?thesis
    using handle_inv_peripheral_event [of s ev env] handle_inv_central_event [of s ev env]
      handle_inv_connect_success [of env conn_handle s]
    by blast
qed

theorem connected_flag_implies_handle_witness:
  "handle_inv (ble_peripheral_gap_event
       \<lparr>adv_set_fields_rc = 0, adv_start_rc = 0, disc_cancel_rc = 0, connect_rc = 0, disc_rc = 0\<rparr>
       (BLE_GAP_EVENT_CONNECT 0 1) (ble_boot 0)) \<and>
   handle_inv (ble_central_gap_event
       \<lparr>adv_set_fields_rc = 0, adv_start_rc = 0, disc_cancel_rc = 0, connect_rc = 0, disc_rc = 0\<rparr>
       (BLE_GAP_EVENT_CONNECT 0 1) (ble_boot 0)) \<and>
   handle_inv (ble_peripheral_gap_event
       \<lparr>adv_set_fields_rc = 0, adv_start_rc = 0, disc_cancel_rc = 0, connect_rc = 0, disc_rc = 0\<rparr>
       (BLE_GAP_EVENT_CONNECT 5 0xFFFF) (ble_boot 0)) \<and>
   handle_inv (ble_central_gap_event
       \<lparr>adv_set_fields_rc = 0, adv_start_rc = 0, disc_cancel_rc = 0, connect_rc = 0, disc_rc = 0\<rparr>
       (BLE_GAP_EVENT_DISC_COMPLETE 0) (ble_boot 0))"
proof -
  let ?env = "\<lparr>adv_set_fields_rc = 0, adv_start_rc = 0, disc_cancel_rc = 0, connect_rc = 0,
      disc_rc = 0\<rparr>"
  have v: "(1 :: 16 word) \<noteq> BLE_HS_CONN_HANDLE_NONE"
    by (simp add: BLE_HS_CONN_HANDLE_NONE_def)
  have n: "\<not> connect_succeeded (BLE_GAP_EVENT_CONNECT 5 0xFFFF)"
    "\<not> connect_succeeded (BLE_GAP_EVENT_DISC_COMPLETE 0)" by simp_all
  from connected_flag_implies_handle [of 0 "ble_boot 0" "BLE_GAP_EVENT_CONNECT 5 0xFFFF" ?env 1]
    connected_flag_implies_handle [of 0 "ble_boot 0" "BLE_GAP_EVENT_DISC_COMPLETE 0" ?env 1] v n
  show ?thesis by blast
qed

text \<open>
  C9 as worded fails. The handlers do not look at the handle of a connect event that
  reports success: if it is the sentinel, the flag is set with the sentinel stored,
  in either role, from the initial statics (where the invariant holds).
\<close>

theorem sentinel_handle_stored_unchecked:
  "handle_inv (ble_boot 0) \<and>
   \<not> handle_inv (ble_peripheral_gap_event
       \<lparr>adv_set_fields_rc = 0, adv_start_rc = 0, disc_cancel_rc = 0, connect_rc = 0, disc_rc = 0\<rparr>
       (BLE_GAP_EVENT_CONNECT 0 0xFFFF) (ble_boot 0)) \<and>
   \<not> handle_inv (ble_central_gap_event
       \<lparr>adv_set_fields_rc = 0, adv_start_rc = 0, disc_cancel_rc = 0, connect_rc = 0, disc_rc = 0\<rparr>
       (BLE_GAP_EVENT_CONNECT 0 0xFFFF) (ble_boot 0))"
  by (simp add: handle_inv_def ble_boot_def issue_def BLE_HS_CONN_HANDLE_NONE_def)

text \<open>
  C3, as the code has it. Central role. A discovery hit never changes the connected
  flag or the stored handle. Once the link is connected, and whenever the hit is not
  connectable, the hit is ignored: the state stays as it is and no call is made. A
  connectable hit that finds the flag clear cancels discovery and then calls
  \<^verbatim>\<open>ble_gap_connect\<close> for that peer; the handler keeps no record of an attempt in
  flight, so this also holds for a hit that arrives before the outcome of an earlier
  attempt.
\<close>

theorem discovery_hit_gated_on_connected_flag:
  "s_is_connected (ble_central_gap_event env (BLE_GAP_EVENT_DISC disc) s) = s_is_connected s \<and>
   s_conn_handle (ble_central_gap_event env (BLE_GAP_EVENT_DISC disc) s) = s_conn_handle s \<and>
   (s_is_connected s \<or> \<not> connectable disc \<longrightarrow>
      ble_central_gap_event env (BLE_GAP_EVENT_DISC disc) s = s) \<and>
   (\<not> s_is_connected s \<and> connectable disc \<longrightarrow>
      ble_new_calls s (ble_central_gap_event env (BLE_GAP_EVENT_DISC disc) s) =
        [Connect_to_device (addr disc), Ble_gap_disc_cancel,
         Ble_gap_connect (s_own_addr_type s) (addr disc)])"
  by (simp add: connectable_def connect_to_device_def issue_def ble_new_calls_def)

theorem discovery_hit_gated_on_connected_flag_witness:
  "ble_central_gap_event
      \<lparr>adv_set_fields_rc = 0, adv_start_rc = 0, disc_cancel_rc = 0, connect_rc = 0, disc_rc = 0\<rparr>
      (BLE_GAP_EVENT_DISC
        \<lparr>event_type = BLE_HCI_ADV_RPT_EVTYPE_ADV_IND,
          addr = \<lparr>addr_type = 0, val = [1, 2, 3, 4, 5, 6]\<rparr>, rssi = - 40, data = []\<rparr>)
      ((ble_boot 0)\<lparr>s_conn_handle := 1, s_is_connected := True\<rparr>)
    = (ble_boot 0)\<lparr>s_conn_handle := 1, s_is_connected := True\<rparr> \<and>
   ble_new_calls (ble_boot 0)
     (ble_central_gap_event
        \<lparr>adv_set_fields_rc = 0, adv_start_rc = 0, disc_cancel_rc = 0, connect_rc = 0, disc_rc = 0\<rparr>
        (BLE_GAP_EVENT_DISC
          \<lparr>event_type = BLE_HCI_ADV_RPT_EVTYPE_ADV_IND,
            addr = \<lparr>addr_type = 0, val = [1, 2, 3, 4, 5, 6]\<rparr>, rssi = - 40, data = []\<rparr>)
        (ble_boot 0))
    = [Connect_to_device \<lparr>addr_type = 0, val = [1, 2, 3, 4, 5, 6]\<rparr>, Ble_gap_disc_cancel,
       Ble_gap_connect 0 \<lparr>addr_type = 0, val = [1, 2, 3, 4, 5, 6]\<rparr>]"
proof -
  let ?env = "\<lparr>adv_set_fields_rc = 0, adv_start_rc = 0, disc_cancel_rc = 0, connect_rc = 0,
      disc_rc = 0\<rparr>"
  let ?d = "\<lparr>event_type = BLE_HCI_ADV_RPT_EVTYPE_ADV_IND,
      addr = \<lparr>addr_type = 0, val = [1, 2, 3, 4, 5, 6]\<rparr>, rssi = - 40, data = []\<rparr>"
  have c: "connectable ?d" by (simp add: connectable_def)
  have b: "\<not> s_is_connected (ble_boot 0)" "s_own_addr_type (ble_boot 0) = 0"
    by (simp_all add: ble_boot_def)
  from discovery_hit_gated_on_connected_flag
      [of ?env ?d "(ble_boot 0)\<lparr>s_conn_handle := 1, s_is_connected := True\<rparr>"]
    discovery_hit_gated_on_connected_flag [of ?env ?d "ble_boot 0"] b c
  show ?thesis by (simp del: ble_central_gap_event.simps)
qed

text \<open>
  C3 as worded fails. From the initial statics, a first connectable hit is accepted:
  discovery is cancelled and \<^verbatim>\<open>ble_gap_connect\<close> is called, and the flag stays clear
  since no outcome has arrived. A second connectable hit, from another peer, then
  makes the handler cancel discovery and call \<^verbatim>\<open>ble_gap_connect\<close> again (answered
  here with an error code, as a host with an attempt in flight would).
\<close>

theorem second_hit_issues_second_connect:
  "\<not> s_is_connected
      (ble_central_gap_event
        \<lparr>adv_set_fields_rc = 0, adv_start_rc = 0, disc_cancel_rc = 0, connect_rc = 0, disc_rc = 0\<rparr>
        (BLE_GAP_EVENT_DISC
          \<lparr>event_type = BLE_HCI_ADV_RPT_EVTYPE_ADV_IND,
            addr = \<lparr>addr_type = 0, val = [1, 2, 3, 4, 5, 6]\<rparr>, rssi = - 40, data = []\<rparr>)
        (ble_boot 0)) \<and>
   calls
      (ble_central_gap_event
        \<lparr>adv_set_fields_rc = 0, adv_start_rc = 0, disc_cancel_rc = 0, connect_rc = 0, disc_rc = 0\<rparr>
        (BLE_GAP_EVENT_DISC
          \<lparr>event_type = BLE_HCI_ADV_RPT_EVTYPE_ADV_IND,
            addr = \<lparr>addr_type = 0, val = [1, 2, 3, 4, 5, 6]\<rparr>, rssi = - 40, data = []\<rparr>)
        (ble_boot 0))
     = [Connect_to_device \<lparr>addr_type = 0, val = [1, 2, 3, 4, 5, 6]\<rparr>, Ble_gap_disc_cancel,
        Ble_gap_connect 0 \<lparr>addr_type = 0, val = [1, 2, 3, 4, 5, 6]\<rparr>] \<and>
   ble_new_calls
      (ble_central_gap_event
        \<lparr>adv_set_fields_rc = 0, adv_start_rc = 0, disc_cancel_rc = 0, connect_rc = 0, disc_rc = 0\<rparr>
        (BLE_GAP_EVENT_DISC
          \<lparr>event_type = BLE_HCI_ADV_RPT_EVTYPE_ADV_IND,
            addr = \<lparr>addr_type = 0, val = [1, 2, 3, 4, 5, 6]\<rparr>, rssi = - 40, data = []\<rparr>)
        (ble_boot 0))
      (ble_central_gap_event
        \<lparr>adv_set_fields_rc = 0, adv_start_rc = 0, disc_cancel_rc = 0, connect_rc = 2, disc_rc = 0\<rparr>
        (BLE_GAP_EVENT_DISC
          \<lparr>event_type = BLE_HCI_ADV_RPT_EVTYPE_ADV_IND,
            addr = \<lparr>addr_type = 1, val = [6, 5, 4, 3, 2, 1]\<rparr>, rssi = - 60, data = []\<rparr>)
        (ble_central_gap_event
          \<lparr>adv_set_fields_rc = 0, adv_start_rc = 0, disc_cancel_rc = 0, connect_rc = 0, disc_rc = 0\<rparr>
          (BLE_GAP_EVENT_DISC
            \<lparr>event_type = BLE_HCI_ADV_RPT_EVTYPE_ADV_IND,
              addr = \<lparr>addr_type = 0, val = [1, 2, 3, 4, 5, 6]\<rparr>, rssi = - 40, data = []\<rparr>)
          (ble_boot 0)))
     = [Connect_to_device \<lparr>addr_type = 1, val = [6, 5, 4, 3, 2, 1]\<rparr>, Ble_gap_disc_cancel,
        Ble_gap_connect 0 \<lparr>addr_type = 1, val = [6, 5, 4, 3, 2, 1]\<rparr>]"
  by (simp add: ble_boot_def connect_to_device_def issue_def ble_new_calls_def)

section \<open>Properties of the storage manager\<close>

lemma c_str_no_NUL: "NUL \<notin> set (c_str v)"
  by (auto simp: c_str_def dest: set_takeWhileD)

lemma c_str_terminated:
  "NUL \<notin> set w \<Longrightarrow> c_str (w @ replicate k NUL @ [NUL]) = w"
proof -
  assume "NUL \<notin> set w"
  then have "takeWhile (\<lambda>c. c \<noteq> NUL) (w @ replicate k NUL @ [NUL])
      = w @ takeWhile (\<lambda>c. c \<noteq> NUL) (replicate k NUL @ [NUL])"
    by (intro takeWhile_append2) auto
  also have "takeWhile (\<lambda>c. c \<noteq> NUL) (replicate k NUL @ [NUL]) = []"
    by (cases k) simp_all
  finally show ?thesis by (simp add: c_str_def)
qed

lemma update_last: "length w = n \<Longrightarrow> (w @ [x])[n := y] = w @ [y]"
  by (simp add: list_update_append)

lemma drop_to_last: "length xs = Suc n \<Longrightarrow> \<exists>x. drop n xs = [x]"
proof -
  assume "length xs = Suc n"
  then have "length (drop n xs) = 1" by simp
  then show ?thesis by (cases "drop n xs") simp_all
qed

lemma strncpy_terminated:
  assumes "length dst = Suc n"
  shows "(strncpy dst src n)[n := NUL] = take n (c_str src @ replicate n NUL) @ [NUL]"
proof -
  have len: "length (take n (c_str src @ replicate n NUL)) = n" by simp
  from drop_to_last [OF assms] obtain x where "drop n dst = [x]" by blast
  then have "strncpy dst src n = take n (c_str src @ replicate n NUL) @ [x]"
    by (simp only: strncpy_def)
  with update_last [OF len] show ?thesis by (simp only:)
qed

lemma c_str_strncpy:
  assumes "length dst = Suc n"
  shows "c_str ((strncpy dst src n)[n := NUL]) = take n (c_str src)"
proof -
  let ?v = "c_str src"
  have "take n (?v @ replicate n NUL) @ [NUL]
      = take n ?v @ replicate (n - length ?v) NUL @ [NUL]"
    by simp
  moreover have "NUL \<notin> set (take n ?v)"
    using c_str_no_NUL [of src] by (auto dest: in_set_takeD)
  ultimately show ?thesis
    using strncpy_terminated [OF assms, of src] c_str_terminated by simp
qed

lemma save_failed:
  "open_rc env \<noteq> ESP_OK \<or> set_rc env \<noteq> ESP_OK \<or> commit_rc env \<noteq> ESP_OK \<Longrightarrow>
   s_stored_string (storage_manager_save_string env v s) = s_stored_string s"
  by (auto simp: storage_manager_save_string_def Let_def nvs_def)

lemma save_committed:
  "open_rc env = ESP_OK \<Longrightarrow> set_rc env = ESP_OK \<Longrightarrow> commit_rc env = ESP_OK \<Longrightarrow>
   storage_manager_save_string env v s =
     s\<lparr>s_stored_string := (strncpy (s_stored_string s) v (STRING_MAX_LEN - 1))
          [STRING_MAX_LEN - 1 := NUL],
       nvs_calls := nvs_calls s @ [Nvs_open, Nvs_set_str (c_str v), Nvs_commit, Nvs_close]\<rparr>"
  by (simp add: storage_manager_save_string_def Let_def nvs_def)

text \<open>
  C10. The buffer is the 64-byte array of the source. If opening NVS, setting the
  string or committing reports an error, the buffer is exactly as before, and so is
  the text \<^verbatim>\<open>storage_manager_get_string\<close> gives. If all three succeed, the commit has
  been called before the buffer is written, the text read back is the first 63
  characters of the value saved (at most 63 characters), and the last byte of the
  buffer is the terminator. The buffer keeps its size either way.
\<close>

theorem save_string_updates_cache_only_on_commit:
  assumes "length (s_stored_string s) = STRING_MAX_LEN"
  shows "(open_rc env \<noteq> ESP_OK \<or> set_rc env \<noteq> ESP_OK \<or> commit_rc env \<noteq> ESP_OK \<longrightarrow>
            s_stored_string (storage_manager_save_string env v s) = s_stored_string s \<and>
            storage_manager_get_string (storage_manager_save_string env v s)
              = storage_manager_get_string s) \<and>
         (open_rc env = ESP_OK \<and> set_rc env = ESP_OK \<and> commit_rc env = ESP_OK \<longrightarrow>
            storage_manager_get_string (storage_manager_save_string env v s)
              = take 63 (c_str v) \<and>
            length (storage_manager_get_string (storage_manager_save_string env v s)) \<le> 63 \<and>
            s_stored_string (storage_manager_save_string env v s) ! 63 = NUL \<and>
            nvs_calls (storage_manager_save_string env v s)
              = nvs_calls s @ [Nvs_open, Nvs_set_str (c_str v), Nvs_commit, Nvs_close]) \<and>
         length (s_stored_string (storage_manager_save_string env v s)) = STRING_MAX_LEN"
proof -
  let ?s' = "storage_manager_save_string env v s"
  from assms have len: "length (s_stored_string s) = Suc 63" by (simp add: STRING_MAX_LEN_def)
  have fail: "open_rc env \<noteq> ESP_OK \<or> set_rc env \<noteq> ESP_OK \<or> commit_rc env \<noteq> ESP_OK \<longrightarrow>
            s_stored_string ?s' = s_stored_string s \<and>
            storage_manager_get_string ?s' = storage_manager_get_string s"
    using save_failed [of env v s] by (simp add: storage_manager_get_string_def)
  have ok: "open_rc env = ESP_OK \<and> set_rc env = ESP_OK \<and> commit_rc env = ESP_OK \<longrightarrow>
            storage_manager_get_string ?s' = take 63 (c_str v) \<and>
            length (storage_manager_get_string ?s') \<le> 63 \<and>
            s_stored_string ?s' ! 63 = NUL \<and>
            nvs_calls ?s' = nvs_calls s @ [Nvs_open, Nvs_set_str (c_str v), Nvs_commit, Nvs_close]"
  proof
    assume "open_rc env = ESP_OK \<and> set_rc env = ESP_OK \<and> commit_rc env = ESP_OK"
    then have s': "?s' = s\<lparr>s_stored_string := (strncpy (s_stored_string s) v 63)[63 := NUL],
       nvs_calls := nvs_calls s @ [Nvs_open, Nvs_set_str (c_str v), Nvs_commit, Nvs_close]\<rparr>"
      using save_committed [of env v s] by (simp add: STRING_MAX_LEN_def)
    have "length (strncpy (s_stored_string s) v 63) = 64"
      using len by (simp add: strncpy_def)
    then have "(strncpy (s_stored_string s) v 63)[63 := NUL] ! 63 = NUL" by simp
    with s' c_str_strncpy [OF len, of v]
    show "storage_manager_get_string ?s' = take 63 (c_str v) \<and>
            length (storage_manager_get_string ?s') \<le> 63 \<and>
            s_stored_string ?s' ! 63 = NUL \<and>
            nvs_calls ?s' = nvs_calls s @ [Nvs_open, Nvs_set_str (c_str v), Nvs_commit, Nvs_close]"
      by (simp add: storage_manager_get_string_def)
  qed
  have "length (strncpy (s_stored_string s) v 63) = 64"
    using len by (simp add: strncpy_def)
  then have keep: "length (s_stored_string ?s') = STRING_MAX_LEN"
    using assms
    by (simp add: storage_manager_save_string_def Let_def nvs_def STRING_MAX_LEN_def)
  from fail ok keep show ?thesis by blast
qed

theorem save_string_updates_cache_only_on_commit_witness:
  "storage_manager_get_string
     (storage_manager_save_string \<lparr>open_rc = 0, set_rc = 0, commit_rc = 0\<rparr> ''on'' storage_boot)
     = ''on'' \<and>
   storage_manager_get_string
     (storage_manager_save_string \<lparr>open_rc = 0, set_rc = 0, commit_rc = 1\<rparr> ''off''
       (storage_manager_save_string \<lparr>open_rc = 0, set_rc = 0, commit_rc = 0\<rparr> ''on''
          storage_boot))
     = ''on''"
proof -
  let ?ok = "\<lparr>open_rc = 0, set_rc = 0, commit_rc = 0\<rparr>"
  let ?bad = "\<lparr>open_rc = 0, set_rc = 0, commit_rc = 1\<rparr>"
  have b: "length (s_stored_string storage_boot) = STRING_MAX_LEN"
    by (simp add: storage_boot_def)
  note first = save_string_updates_cache_only_on_commit [OF b, of ?ok "''on''"]
  then have l: "length (s_stored_string (storage_manager_save_string ?ok ''on'' storage_boot))
      = STRING_MAX_LEN" by blast
  note second = save_string_updates_cache_only_on_commit [OF l, of ?bad "''off''"]
  have "c_str ''on'' = ''on''" by (simp add: c_str_def NUL_def)
  with first second show ?thesis by (simp add: ESP_OK_def)
qed

end
